theory Spec2Isabelle
  imports Main "HOL-Library.Char_ord" "HOL-Library.List_Lexorder"
begin

section \<open>Python strings\<close>

text \<open>
  A Python \<open>str\<close> is modelled as a \<open>string\<close> whose characters are the code points
  U+0000 to U+00FF (Latin-1); \<open>of_char\<close> reads the code point. The methods below are the
  ones the two scripts call, with the behaviour of CPython on that range.
\<close>

definition is_space :: "char \<Rightarrow> bool" where
  \<comment> \<open>\<open>str.isspace\<close> on one character: TAB..CR, FS..US, SPACE, NEL, NBSP\<close>
  "is_space c = (let n = (of_char c :: nat) in
     (9 \<le> n \<and> n \<le> 13) \<or> (28 \<le> n \<and> n \<le> 32) \<or> n = 133 \<or> n = 160)"

definition lower_char :: "char \<Rightarrow> char" where
  \<comment> \<open>A..Z, and the Latin-1 capitals U+00C0..U+00DE except the multiplication sign U+00D7\<close>
  "lower_char c = (let n = (of_char c :: nat) in
     if (65 \<le> n \<and> n \<le> 90) \<or> (192 \<le> n \<and> n \<le> 222 \<and> n \<noteq> 215)
     then char_of (n + 32) else c)"

definition strip :: "string \<Rightarrow> string" where
  \<comment> \<open>\<open>s.strip()\<close>\<close>
  "strip s = rev (dropWhile is_space (rev (dropWhile is_space s)))"

definition lower :: "string \<Rightarrow> string" where
  \<comment> \<open>\<open>s.lower()\<close>\<close>
  "lower s = map lower_char s"

definition replace_space :: "string \<Rightarrow> string" where
  \<comment> \<open>\<open>s.replace(" ", "_")\<close>\<close>
  "replace_space s = map (\<lambda>c. if c = CHR '' '' then CHR ''_'' else c) s"

definition endswith :: "string \<Rightarrow> string \<Rightarrow> bool" where
  \<comment> \<open>\<open>s.endswith(suf)\<close>\<close>
  "endswith s suf = (length suf \<le> length s \<and> drop (length s - length suf) s = suf)"

definition startswith :: "string \<Rightarrow> string \<Rightarrow> bool" where
  "startswith s pre = (take (length pre) s = pre)"

fun contains :: "string \<Rightarrow> string \<Rightarrow> bool" where
  \<comment> \<open>\<open>sub in s\<close>\<close>
  "contains [] sub = (sub = [])"
| "contains (c # cs) sub = (startswith (c # cs) sub \<or> contains cs sub)"

fun split_on :: "char \<Rightarrow> string \<Rightarrow> string list" where
  \<comment> \<open>\<open>s.split(sep)\<close> for a one-character separator\<close>
  "split_on sep [] = [[]]"
| "split_on sep (c # cs) =
     (if c = sep then [] # split_on sep cs
      else (case split_on sep cs of
              [] \<Rightarrow> [[c]]
            | w # ws \<Rightarrow> (c # w) # ws))"

definition stable_char :: "char \<Rightarrow> bool" where
  \<comment> \<open>a character that \<open>lower\<close> and \<open>replace_space\<close> leave as it is\<close>
  "stable_char c = (lower_char c = c \<and> c \<noteq> CHR '' '')"

section \<open>batch\_generate\_config.py: the project key\<close>

definition protocol_to_key :: "string \<Rightarrow> string" where
  "protocol_to_key protocol =
     (let key = replace_space (lower (strip protocol))
      in if endswith key ''_exp'' then take (length key - 4) key else key)"

section \<open>JSON values\<close>

text \<open>
  What \<open>json.loads\<close> returns: \<open>None\<close>, \<open>bool\<close>, \<open>int\<close>, \<open>float\<close>, \<open>str\<close>, \<open>list\<close> and
  \<open>dict\<close>. Floats are kept abstract (the type parameter); a \<open>dict\<close> is the list of its
  items in insertion order, so its keys are distinct.
\<close>

datatype 'f json =
    JNull
  | JBool bool
  | JInt int
  | JFloat 'f
  | JStr string
  | JArr "'f json list"
  | JObj "(string \<times> 'f json) list"

section \<open>generate\_config.py\<close>

datatype error =
    InvalidVarFormat string       \<comment> \<open>\<open>ValueError\<close> of \<open>parse_kv\<close>, with the offending item\<close>
  | MissingTemplateArg            \<comment> \<open>\<open>parser.error\<close>: no template path resolves\<close>
  | TemplateIncomplete            \<comment> \<open>\<open>ValueError\<close> of \<open>generate_from_template\<close>\<close>
  | JSONDecodeError               \<comment> \<open>raised by \<open>json.loads\<close>\<close>
  | FileNotFoundError string      \<comment> \<open>\<open>Path.read_text\<close> on a missing template\<close>
  | InvalidFilter string          \<comment> \<open>\<open>ValueError\<close> of \<open>collect_protocols\<close>\<close>
  | ExtractedRootMissing          \<comment> \<open>\<open>FileNotFoundError\<close> of \<open>collect_protocols\<close>\<close>
  | NotADirectoryError
  | FileExistsError
  | ChildSpawnError               \<comment> \<open>\<open>subprocess.run\<close> could not start the child\<close>

type_synonym 'f mapping = "string \<rightharpoonup> 'f json"

subsection \<open>parse\_kv\<close>

fun parse_kv_loop :: "(string \<rightharpoonup> string) \<Rightarrow> string list \<Rightarrow> error + (string \<rightharpoonup> string)" where
  "parse_kv_loop result [] = Inr result"
| "parse_kv_loop result (item # pairs) =
     (if CHR ''='' \<notin> set item then Inl (InvalidVarFormat item)
      else
        let key = takeWhile (\<lambda>c. c \<noteq> CHR ''='') item;
            val = tl (dropWhile (\<lambda>c. c \<noteq> CHR ''='') item)
        in parse_kv_loop (result(strip key \<mapsto> strip val)) pairs)"

definition parse_kv :: "string list \<Rightarrow> error + (string \<rightharpoonup> string)" where
  "parse_kv pairs = parse_kv_loop Map.empty pairs"

subsection \<open>cleanup\_config\<close>

definition is_empty_str :: "'f json \<Rightarrow> bool" where
  \<comment> \<open>\<open>isinstance(item, str) and item == ""\<close>\<close>
  "is_empty_str item = (case item of JStr s \<Rightarrow> s = [] | _ \<Rightarrow> False)"

fun cleanup_config :: "'f json \<Rightarrow> 'f json" where
  "cleanup_config (JArr xs) =
     (let cleaned = map cleanup_config xs
      in JArr (filter (\<lambda>item. \<not> is_empty_str item) cleaned))"
| "cleanup_config (JObj kvs) = JObj (map (\<lambda>(k, v). (k, cleanup_config v)) kvs)"
| "cleanup_config v = v"

fun no_empty_strings :: "'f json \<Rightarrow> bool" where
  \<comment> \<open>no array, at any depth, has the empty string among its elements\<close>
  "no_empty_strings (JArr xs) = list_all (\<lambda>x. x \<noteq> JStr [] \<and> no_empty_strings x) xs"
| "no_empty_strings (JObj kvs) = list_all (\<lambda>(k, v). no_empty_strings v) kvs"
| "no_empty_strings v = True"

subsection \<open>string.Template.safe\_substitute\<close>

text \<open>
  \<open>string.Template\<close> belongs to the Python standard library. Its pattern is
  \<^verbatim>\<open>\$(?:(?P<escaped>\$)|(?P<named>id)|{(?P<braced>id)}|(?P<invalid>))\<close> with
  \<open>id = (?a:[_a-z][_a-z0-9]*)\<close> under \<open>re.IGNORECASE\<close>; \<open>match_delimiter\<close> is that
  alternation applied to the text after a \<open>$\<close>, and \<open>safe_substitute\<close> is \<open>pattern.sub\<close>
  with the \<open>convert\<close> callback of \<open>Template.safe_substitute\<close>.
\<close>

definition is_id_start :: "char \<Rightarrow> bool" where
  "is_id_start c = (let n = (of_char c :: nat) in
     n = 95 \<or> (97 \<le> n \<and> n \<le> 122) \<or> (65 \<le> n \<and> n \<le> 90))"

definition is_id_char :: "char \<Rightarrow> bool" where
  "is_id_char c = (let n = (of_char c :: nat) in
     n = 95 \<or> (97 \<le> n \<and> n \<le> 122) \<or> (65 \<le> n \<and> n \<le> 90) \<or> (48 \<le> n \<and> n \<le> 57))"

definition is_identifier :: "string \<Rightarrow> bool" where
  "is_identifier name = (name \<noteq> [] \<and> is_id_start (hd name) \<and> list_all is_id_char name)"

datatype tmatch =
    Escaped string          \<comment> \<open>\<open>$$\<close>, and the text after it\<close>
  | Named string string     \<comment> \<open>\<open>$name\<close>: the name and the text after it\<close>
  | Braced string string    \<comment> \<open>\<open>${name}\<close>: the name and the text after the brace\<close>
  | Invalid                 \<comment> \<open>a lone \<open>$\<close>\<close>

definition match_delimiter :: "string \<Rightarrow> tmatch" where
  "match_delimiter cs =
     (case cs of
        [] \<Rightarrow> Invalid
      | d # ds \<Rightarrow>
          if d = CHR ''$'' then Escaped ds
          else if is_id_start d then Named (takeWhile is_id_char cs) (dropWhile is_id_char cs)
          else if d = CHR ''{'' \<and> ds \<noteq> [] \<and> is_id_start (hd ds) \<and>
                  startswith (dropWhile is_id_char ds) ''}''
          then Braced (takeWhile is_id_char ds) (tl (dropWhile is_id_char ds))
          else Invalid)"

function safe_substitute :: "(string \<rightharpoonup> string) \<Rightarrow> string \<Rightarrow> string" where
  "safe_substitute m [] = []"
| "safe_substitute m (c # cs) =
     (if c \<noteq> CHR ''$'' then c # safe_substitute m cs
      else (case match_delimiter cs of
              Escaped rest \<Rightarrow> CHR ''$'' # safe_substitute m rest
            | Named name rest \<Rightarrow>
                (case m name of Some v \<Rightarrow> v | None \<Rightarrow> CHR ''$'' # name) @ safe_substitute m rest
            | Braced name rest \<Rightarrow>
                (case m name of Some v \<Rightarrow> v | None \<Rightarrow> ''${'' @ name @ ''}'') @ safe_substitute m rest
            | Invalid \<Rightarrow> CHR ''$'' # safe_substitute m cs))"
  by pat_completeness auto
termination
proof (relation "measure (\<lambda>(m, s). length s)")
  fix m :: "string \<rightharpoonup> string" and c :: char and cs name rest :: string
  assume "match_delimiter cs = Named name rest"
  then have "rest = dropWhile is_id_char cs"
    by (auto simp: match_delimiter_def split: list.splits if_splits)
  then show "((m, rest), (m, c # cs)) \<in> measure (\<lambda>(m, s). length s)"
    by (simp add: le_imp_less_Suc length_dropWhile_le)
next
  fix m :: "string \<rightharpoonup> string" and c :: char and cs name rest :: string
  assume "match_delimiter cs = Braced name rest"
  then have "\<exists>ds. length ds < length cs \<and> rest = tl (dropWhile is_id_char ds)"
    by (auto simp: match_delimiter_def split: list.splits if_splits)
  then obtain ds where "length ds < length cs" and "rest = tl (dropWhile is_id_char ds)"
    by blast
  moreover have "length (dropWhile is_id_char ds) \<le> length ds"
    by (rule length_dropWhile_le)
  ultimately show "((m, rest), (m, c # cs)) \<in> measure (\<lambda>(m, s). length s)"
    by simp
qed (auto simp: match_delimiter_def split: list.splits if_splits)

text \<open>
  \<open>pattern.sub(convert, template)\<close> seen as two steps: \<open>tokenize\<close> cuts the template into
  the successive matches of the pattern and the characters between them, and \<open>convert\<close>
  is the callback of \<open>safe_substitute\<close> on one match (a character outside a match is
  copied).
\<close>

datatype token =
    Lit char            \<comment> \<open>a character outside any match\<close>
  | TEscaped            \<comment> \<open>\<open>$$\<close>\<close>
  | TNamed string       \<comment> \<open>\<open>$name\<close>\<close>
  | TBraced string      \<comment> \<open>\<open>${name}\<close>\<close>
  | TInvalid            \<comment> \<open>a lone \<open>$\<close>\<close>

function tokenize :: "string \<Rightarrow> token list" where
  "tokenize [] = []"
| "tokenize (c # cs) =
     (if c \<noteq> CHR ''$'' then Lit c # tokenize cs
      else (case match_delimiter cs of
              Escaped rest \<Rightarrow> TEscaped # tokenize rest
            | Named name rest \<Rightarrow> TNamed name # tokenize rest
            | Braced name rest \<Rightarrow> TBraced name # tokenize rest
            | Invalid \<Rightarrow> TInvalid # tokenize cs))"
  by pat_completeness auto
termination
proof (relation "measure length")
  fix c :: char and cs name rest :: string
  assume "match_delimiter cs = Named name rest"
  then have "rest = dropWhile is_id_char cs"
    by (auto simp: match_delimiter_def split: list.splits if_splits)
  then show "(rest, c # cs) \<in> measure length"
    by (simp add: le_imp_less_Suc length_dropWhile_le)
next
  fix c :: char and cs name rest :: string
  assume "match_delimiter cs = Braced name rest"
  then have "\<exists>ds. length ds < length cs \<and> rest = tl (dropWhile is_id_char ds)"
    by (auto simp: match_delimiter_def split: list.splits if_splits)
  then obtain ds where "length ds < length cs" and "rest = tl (dropWhile is_id_char ds)"
    by blast
  moreover have "length (dropWhile is_id_char ds) \<le> length ds"
    by (rule length_dropWhile_le)
  ultimately show "(rest, c # cs) \<in> measure length"
    by simp
qed (auto simp: match_delimiter_def split: list.splits if_splits)

fun token_source :: "token \<Rightarrow> string" where
  \<comment> \<open>\<open>mo.group()\<close>: the text of the template the token stands for\<close>
  "token_source (Lit c) = [c]"
| "token_source TEscaped = ''$$''"
| "token_source (TNamed name) = ''$'' @ name"
| "token_source (TBraced name) = ''${'' @ name @ ''}''"
| "token_source TInvalid = ''$''"

fun convert :: "(string \<rightharpoonup> string) \<Rightarrow> token \<Rightarrow> string" where
  \<comment> \<open>the \<open>convert\<close> callback: a placeholder whose key is missing gives \<open>mo.group()\<close>\<close>
  "convert m (Lit c) = [c]"
| "convert m TEscaped = ''$''"
| "convert m (TNamed name) = (case m name of Some v \<Rightarrow> v | None \<Rightarrow> ''$'' @ name)"
| "convert m (TBraced name) = (case m name of Some v \<Rightarrow> v | None \<Rightarrow> ''${'' @ name @ ''}'')"
| "convert m TInvalid = ''$''"

subsection \<open>generate\_from\_template\<close>

text \<open>
  Library functions the generator calls and whose results no claim depends on are
  parameters: \<open>os.path.normpath\<close>, \<open>json.loads\<close> (\<open>None\<close> stands for its
  \<open>JSONDecodeError\<close>), the builtin \<open>str\<close> on values that are neither \<open>None\<close> nor a
  \<open>str\<close>, and \<open>str.title\<close>.
\<close>

record 'f pylib =
  normpath :: "string \<Rightarrow> string"
  json_loads :: "string \<Rightarrow> 'f json option"
  str_other :: "'f json \<Rightarrow> string"
  title :: "string \<Rightarrow> string"

definition to_string :: "'f pylib \<Rightarrow> 'f json \<Rightarrow> string" where
  \<comment> \<open>\<open>"" if v is None else str(v)\<close>\<close>
  "to_string lib v = (case v of JNull \<Rightarrow> [] | JStr s \<Rightarrow> s | _ \<Rightarrow> str_other lib v)"

definition string_mapping :: "'f pylib \<Rightarrow> 'f mapping \<Rightarrow> (string \<rightharpoonup> string)" where
  "string_mapping lib mapping = (\<lambda>k. map_option (to_string lib) (mapping k))"

definition render_text :: "'f pylib \<Rightarrow> string \<Rightarrow> 'f mapping \<Rightarrow> string" where
  \<comment> \<open>\<open>rendered\<close>: the template text after \<open>safe_substitute\<close>\<close>
  "render_text lib template_text mapping =
     safe_substitute (string_mapping lib mapping) template_text"

definition generate_from_template ::
  "'f pylib \<Rightarrow> (string \<rightharpoonup> string) \<Rightarrow> string \<Rightarrow> 'f mapping \<Rightarrow> error + 'f json" where
  \<comment> \<open>\<open>files\<close> gives the text of each readable file\<close>
  "generate_from_template lib files template_path mapping =
     (case files template_path of
        None \<Rightarrow> Inl (FileNotFoundError template_path)
      | Some template_text \<Rightarrow>
          let rendered = render_text lib template_text mapping
          in if contains rendered ''${'' then Inl TemplateIncomplete
             else (case json_loads lib rendered of
                     None \<Rightarrow> Inl JSONDecodeError
                   | Some data \<Rightarrow> Inr (cleanup_config data)))"

subsection \<open>main\<close>

record project_defaults =
  d_deploy :: "string option"
  d_template :: "string option"
  d_output :: "string option"
  d_vars :: "(string \<times> string) list"

definition no_defaults :: project_defaults where
  \<comment> \<open>the \<open>{}\<close> of \<open>DEFAULT_PROJECTS.get(project, {})\<close>\<close>
  "no_defaults = \<lparr>d_deploy = None, d_template = None, d_output = None, d_vars = []\<rparr>"

definition DEFAULT_PROJECTS :: "string \<rightharpoonup> project_defaults" where
  "DEFAULT_PROJECTS =
     [''lodestar'' \<mapsto>
        \<lparr>d_deploy = Some ''../test/Lodestar/scripts/data/deployed-local.json'',
         d_template = Some ''config/templates/lodestar_dynamic.json.tmpl'',
         d_output = Some ''pkg/invariants/configs/lodestar-dynamic.json'',
         d_vars = [(''project_id'', ''lodestar-local-dynamic''),
                   (''project_name'', ''Lodestar Protocol (Local Dynamic)'')]\<rparr>]"

record args =
  arg_project :: string
  arg_deploy :: "string option"
  arg_template :: "string option"
  arg_output :: "string option"
  arg_var :: "string list"

record 'f world =
  deploy_files :: "string \<rightharpoonup> (string \<times> 'f json) list"
  text_files :: "string \<rightharpoonup> string"

text \<open>
  \<open>deploy_files\<close> gives, for each path that exists, the items of the JSON object the
  file holds (\<open>load_json_if_exists\<close> is annotated \<open>Dict[str, Any]\<close>); \<open>text_files\<close> the
  text of each template.
\<close>

datatype gmsg =
    WarnDeployMissing string    \<comment> \<open>the warning of line 100\<close>

definition py_or :: "string option \<Rightarrow> string option \<Rightarrow> string option" where
  \<comment> \<open>\<open>a or b\<close>: \<open>None\<close> and \<open>""\<close> are falsy\<close>
  "py_or a b = (case a of None \<Rightarrow> b | Some s \<Rightarrow> if s = [] then b else Some s)"

definition load_json_if_exists :: "'f world \<Rightarrow> string \<Rightarrow> (string \<times> 'f json) list" where
  "load_json_if_exists w path =
     (if path = [] \<or> deploy_files w path = None then []
      else (case deploy_files w path of Some items \<Rightarrow> items | None \<Rightarrow> []))"

definition dict_update :: "'f mapping \<Rightarrow> (string \<times> 'f json) list \<Rightarrow> 'f mapping" where
  \<comment> \<open>\<open>mapping.update(d)\<close>, \<open>d\<close> given by its items\<close>
  "dict_update mapping items = mapping ++ map_of items"

definition setdefault :: "'f mapping \<Rightarrow> string \<Rightarrow> 'f json \<Rightarrow> 'f mapping" where
  "setdefault mapping k v = (case mapping k of None \<Rightarrow> mapping(k \<mapsto> v) | Some _ \<Rightarrow> mapping)"

definition load_deploy :: "'f pylib \<Rightarrow> 'f world \<Rightarrow> string option \<Rightarrow> gmsg list \<times> 'f mapping" where
  \<comment> \<open>lines 96 to 102 of \<open>main\<close>\<close>
  "load_deploy lib w deploy_path =
     (case py_or deploy_path None of
        None \<Rightarrow> ([], Map.empty)
      | Some p \<Rightarrow>
          let p' = normpath lib p
          in if deploy_files w p' = None then ([WarnDeployMissing p'], Map.empty)
             else ([], dict_update Map.empty (load_json_if_exists w p')))"

definition build_mapping ::
  "'f pylib \<Rightarrow> 'f world \<Rightarrow> string option \<Rightarrow> (string \<times> string) list \<Rightarrow> string list \<Rightarrow>
   string \<Rightarrow> string \<Rightarrow> gmsg list \<times> (error + 'f mapping)" where
  \<comment> \<open>lines 96 to 108 of \<open>main\<close>: \<open>default_vars\<close> is \<open>defaults.get("vars", {})\<close>\<close>
  "build_mapping lib w deploy_path default_vars vars proj output_path =
     (let (msgs, m0) = load_deploy lib w deploy_path;
          m1 = dict_update m0 (map (\<lambda>(k, v). (k, JStr v)) default_vars)
      in case parse_kv vars of
           Inl e \<Rightarrow> (msgs, Inl e)
         | Inr kv \<Rightarrow>
             let m2 = m1 ++ (\<lambda>k. map_option JStr (kv k));
                 m3 = setdefault m2 ''project_id'' (JStr (proj @ ''-dynamic''));
                 m4 = setdefault m3 ''project_name'' (JStr (title lib proj @ '' Project (Dynamic)''));
                 m5 = setdefault m4 ''config_path'' (JStr output_path)
             in (msgs, Inr m5))"

definition main ::
  "'f pylib \<Rightarrow> 'f world \<Rightarrow> args \<Rightarrow> gmsg list \<times> (error + string \<times> 'f json)" where
  \<comment> \<open>up to the rendered config and the path it is written to (lines 85 to 110)\<close>
  "main lib w a =
     (let proj = lower (arg_project a);
          defaults = (case DEFAULT_PROJECTS proj of None \<Rightarrow> no_defaults | Some d \<Rightarrow> d);
          deploy_path = py_or (arg_deploy a) (d_deploy defaults);
          template_path = py_or (arg_template a) (d_template defaults);
          output_path =
            (case py_or (arg_output a) (d_output defaults) of
               Some p \<Rightarrow> p
             | None \<Rightarrow> ''pkg/invariants/configs/'' @ proj @ ''-dynamic.json'')
      in case template_path of
           None \<Rightarrow> ([], Inl MissingTemplateArg)
         | Some tp \<Rightarrow>
             (case build_mapping lib w deploy_path (d_vars defaults) (arg_var a) proj output_path of
                (msgs, Inl e) \<Rightarrow> (msgs, Inl e)
              | (msgs, Inr mapping) \<Rightarrow>
                  (case generate_from_template lib (text_files w) tp mapping of
                     Inl e \<Rightarrow> (msgs, Inl e)
                   | Inr config \<Rightarrow> (msgs, Inr (output_path, config)))))"

section \<open>batch\_generate\_config.py\<close>

subsection \<open>The file system\<close>

text \<open>
  A \<open>pathlib.Path\<close> (a \<open>PosixPath\<close>, absolute) is its root, which is \<open>//\<close> or \<open>/\<close>, and the
  list of its parts below the root. The disk is a tree without symbolic links, and both
  roots name its top directory.
\<close>

datatype path = Path bool "string list"    \<comment> \<open>is the root \<open>//\<close>?, and the parts\<close>

definition name_parts :: "string \<Rightarrow> string list" where
  \<comment> \<open>the parts of a string: empty components and \<open>.\<close> are dropped, \<open>..\<close> is kept\<close>
  "name_parts name = filter (\<lambda>x. x \<noteq> [] \<and> x \<noteq> ''.'') (split_on CHR ''/'' name)"

definition pjoin :: "path \<Rightarrow> string \<Rightarrow> path" where
  \<comment> \<open>\<open>p / name\<close>: an absolute \<open>name\<close> replaces \<open>p\<close>; exactly two leading slashes give the
     root \<open>//\<close>\<close>
  "pjoin p name =
     (case p of Path dbl parts \<Rightarrow>
        if startswith name ''/''
        then Path (startswith name ''//'' \<and> \<not> startswith name ''///'') (name_parts name)
        else Path dbl (parts @ name_parts name))"

definition pjoins :: "path \<Rightarrow> string list \<Rightarrow> path" where
  \<comment> \<open>\<open>p / n1 / n2 / ...\<close>\<close>
  "pjoins p names = foldl pjoin p names"

definition parent :: "path \<Rightarrow> path" where
  \<comment> \<open>\<open>p.parent\<close>: the root is its own parent\<close>
  "parent p = (case p of Path dbl parts \<Rightarrow> Path dbl (butlast parts))"

fun join_slash :: "string list \<Rightarrow> string" where
  \<comment> \<open>\<open>"/".join(parts)\<close>\<close>
  "join_slash [] = []"
| "join_slash [x] = x"
| "join_slash (x # y # ys) = x @ ''/'' @ join_slash (y # ys)"

definition path_str :: "path \<Rightarrow> string" where
  \<comment> \<open>\<open>str(p)\<close>\<close>
  "path_str p =
     (case p of Path dbl parts \<Rightarrow> (if dbl then ''//'' else ''/'') @ join_slash parts)"

datatype node =
    File string
  | Dir "(string \<times> node) list"

fun walk :: "node list \<Rightarrow> node \<Rightarrow> string list \<Rightarrow> node option" where
  \<comment> \<open>path resolution from a directory, \<open>up\<close> being its ancestors, nearest first; \<open>..\<close>
     of the root is the root\<close>
  "walk up n [] = Some n"
| "walk up (File content) (c # cs) = None"
| "walk up (Dir kids) (c # cs) =
     (if c = ''..''
      then (case up of
              [] \<Rightarrow> walk [] (Dir kids) cs
            | d # ds \<Rightarrow> walk ds d cs)
      else (case map_of kids c of
              None \<Rightarrow> None
            | Some kid \<Rightarrow> walk (Dir kids # up) kid cs))"

definition lookup :: "node \<Rightarrow> path \<Rightarrow> node option" where
  \<comment> \<open>the file or directory a path names on the disk, if any\<close>
  "lookup root p = (case p of Path dbl parts \<Rightarrow> walk [] root parts)"

definition path_exists :: "node \<Rightarrow> path \<Rightarrow> bool" where
  \<comment> \<open>\<open>p.exists()\<close>\<close>
  "path_exists root p = (lookup root p \<noteq> None)"

definition is_dir :: "node \<Rightarrow> bool" where
  "is_dir n = (case n of Dir kids \<Rightarrow> True | File content \<Rightarrow> False)"

definition replace_kid :: "string \<Rightarrow> node \<Rightarrow> (string \<times> node) list \<Rightarrow> (string \<times> node) list" where
  "replace_kid name n kids = map (\<lambda>(k, v). if k = name then (k, n) else (k, v)) kids"

fun mkdir_parts :: "node \<Rightarrow> string list \<Rightarrow> error + node" where
  "mkdir_parts (Dir kids) [] = Inr (Dir kids)"
| "mkdir_parts (File content) [] = Inl FileExistsError"
| "mkdir_parts (File content) (c # cs) = Inl NotADirectoryError"
| "mkdir_parts (Dir kids) (c # cs) =
     (case map_of kids c of
        None \<Rightarrow>
          (case mkdir_parts (Dir []) cs of
             Inl e \<Rightarrow> Inl e
           | Inr d \<Rightarrow> Inr (Dir (kids @ [(c, d)])))
      | Some kid \<Rightarrow>
          (case mkdir_parts kid cs of
             Inl e \<Rightarrow> Inl e
           | Inr d \<Rightarrow> Inr (Dir (replace_kid c d kids))))"

definition mkdir_parents :: "node \<Rightarrow> path \<Rightarrow> error + node" where
  \<comment> \<open>\<open>p.mkdir(parents=True, exist_ok=True)\<close>, for a path without \<open>..\<close> (the only path
     the script creates is below the resolved script directory)\<close>
  "mkdir_parents root p = (case p of Path dbl parts \<Rightarrow> mkdir_parts root parts)"

subsection \<open>Module constants\<close>

record env =
  script_file :: path     \<comment> \<open>\<open>Path(__file__).resolve()\<close>: no \<open>..\<close> among its parts\<close>
  executable :: string    \<comment> \<open>\<open>sys.executable\<close>\<close>

definition PROJECT_ROOT :: "env \<Rightarrow> path" where
  "PROJECT_ROOT e = parent (parent (script_file e))"

definition SCRIPT_DIR :: "env \<Rightarrow> path" where
  "SCRIPT_DIR e = parent (script_file e)"

definition GENERATE_CONFIG :: "env \<Rightarrow> path" where
  "GENERATE_CONFIG e = pjoin (SCRIPT_DIR e) ''generate_config.py''"

definition EXTRACTED_ROOT :: "env \<Rightarrow> path" where
  "EXTRACTED_ROOT e = pjoins (PROJECT_ROOT e) [''DeFiHackLabs'', ''extracted_contracts'']"

definition GENERATED_ROOT :: "env \<Rightarrow> path" where
  "GENERATED_ROOT e = pjoin (PROJECT_ROOT e) ''generated''"

definition TEMPLATE_FALLBACK_ROOT :: "env \<Rightarrow> path" where
  "TEMPLATE_FALLBACK_ROOT e = pjoins (SCRIPT_DIR e) [''config'', ''templates'']"

definition OUTPUT_ROOT :: "env \<Rightarrow> path" where
  "OUTPUT_ROOT e = pjoins (SCRIPT_DIR e) [''pkg'', ''invariants'', ''configs'']"

record bargs =
  b_filter :: "string list"
  b_protocols :: "string list option"
  b_var :: "string list"
  b_force :: bool
  b_dry_run :: bool
  b_quiet :: bool

subsection \<open>collect\_protocols\<close>

fun normalize_filters :: "string set \<Rightarrow> string list \<Rightarrow> error + string set" where
  "normalize_filters normalized_filters [] = Inr normalized_filters"
| "normalize_filters normalized_filters (item # filters) =
     (let item' = strip item
      in if item' = [] then normalize_filters normalized_filters filters
         else if length item' \<noteq> 7 \<or> item' ! 4 \<noteq> CHR ''-'' then Inl (InvalidFilter item')
         else normalize_filters (insert item' normalized_filters) filters)"

definition month_protocols :: "node \<Rightarrow> string list" where
  \<comment> \<open>the inner loop: the directories of \<open>sorted(month_dir.iterdir())\<close>, by name\<close>
  "month_protocols month_dir =
     (case month_dir of
        File content \<Rightarrow> []
      | Dir kids \<Rightarrow> map fst (filter (\<lambda>(name, n). is_dir n) (sort_key fst kids)))"

definition collect_protocols :: "env \<Rightarrow> node \<Rightarrow> string list \<Rightarrow> error + string list" where
  "collect_protocols e root filters =
     (if \<not> path_exists root (EXTRACTED_ROOT e) then Inl ExtractedRootMissing
      else (case normalize_filters {} filters of
              Inl err \<Rightarrow> Inl err
            | Inr normalized_filters \<Rightarrow>
                (case lookup root (EXTRACTED_ROOT e) of
                   Some (Dir kids) \<Rightarrow>
                     let year_month_dirs = sort_key fst (filter (\<lambda>(name, n). is_dir n) kids)
                     in Inr (concat (map (\<lambda>(name, month_dir).
                                 if normalized_filters \<noteq> {} \<and> name \<notin> normalized_filters then []
                                 else month_protocols month_dir) year_month_dirs))
                 | _ \<Rightarrow> Inl NotADirectoryError)))"

subsection \<open>parse\_protocols\<close>

fun add_names :: "string set \<Rightarrow> string list \<Rightarrow> string list \<Rightarrow> string set \<times> string list" where
  "add_names seen result [] = (seen, result)"
| "add_names seen result (name # parts) =
     (if name \<notin> seen then add_names (insert name seen) (result @ [name]) parts
      else add_names seen result parts)"

fun parse_protocols_loop :: "string set \<Rightarrow> string list \<Rightarrow> string list \<Rightarrow> string list" where
  "parse_protocols_loop seen result [] = result"
| "parse_protocols_loop seen result (entry # protocol_args) =
     (if entry = [] then parse_protocols_loop seen result protocol_args
      else
        let parts = filter (\<lambda>p. p \<noteq> []) (map strip (split_on CHR '','' entry));
            (seen', result') = add_names seen result parts
        in parse_protocols_loop seen' result' protocol_args)"

definition parse_protocols :: "string list option \<Rightarrow> string list" where
  "parse_protocols protocol_args =
     (case protocol_args of
        None \<Rightarrow> []
      | Some entries \<Rightarrow> if entries = [] then [] else parse_protocols_loop {} [] entries)"

subsection \<open>build\_command\<close>

definition build_command :: "env \<Rightarrow> string \<Rightarrow> path \<Rightarrow> path \<Rightarrow> path \<Rightarrow> string list \<Rightarrow> string list" where
  \<comment> \<open>a \<open>Path\<close> is always truthy, so \<open>--deploy\<close> is always passed\<close>
  "build_command e proj template_path deploy_path output_path extra_vars =
     [executable e, path_str (GENERATE_CONFIG e),
      ''--project'', proj,
      ''--template'', path_str template_path,
      ''--output'', path_str output_path]
     @ [''--deploy'', path_str deploy_path]
     @ concat (map (\<lambda>kv. [''--var'', kv]) extra_vars)"

subsection \<open>main\<close>

datatype bmsg =
    MsgNoProtocols
  | MsgTemplateMissing string path
  | MsgOutputExists path
  | MsgDryRun "string list"
  | MsgRun "string list"
  | MsgSummary nat nat nat

record bstate =
  disk :: node
  success :: nat
  skipped :: nat
  failed :: nat
  printed :: "bmsg list"
  spawned :: "string list list"    \<comment> \<open>the commands given to \<open>subprocess.run\<close>, in order\<close>

text \<open>
  \<open>subprocess.run(cmd, cwd)\<close> is a parameter \<open>run\<close>: from the command, the working
  directory and the disk it gives the child's return code and the disk it leaves, or the
  exception raised when the child cannot be started.
\<close>

type_synonym runner = "string list \<Rightarrow> path \<Rightarrow> node \<Rightarrow> error + (int \<times> node)"

definition say :: "bargs \<Rightarrow> bmsg \<Rightarrow> bstate \<Rightarrow> bstate" where
  \<comment> \<open>\<open>if not args.quiet: print(...)\<close>\<close>
  "say a msg st = (if b_quiet a then st else st\<lparr>printed := printed st @ [msg]\<rparr>)"

definition generated_template :: "env \<Rightarrow> string \<Rightarrow> path" where
  \<comment> \<open>line 169: \<open>GENERATED_ROOT / protocol / f"{project_key}_dynamic.json.tmpl"\<close>\<close>
  "generated_template e protocol =
     pjoins (GENERATED_ROOT e) [protocol, protocol_to_key protocol @ ''_dynamic.json.tmpl'']"

definition fallback_template :: "env \<Rightarrow> string \<Rightarrow> path" where
  \<comment> \<open>line 171: \<open>TEMPLATE_FALLBACK_ROOT / f"{project_key}_dynamic.json.tmpl"\<close>\<close>
  "fallback_template e protocol =
     pjoin (TEMPLATE_FALLBACK_ROOT e) (protocol_to_key protocol @ ''_dynamic.json.tmpl'')"

definition deploy_path_of :: "env \<Rightarrow> string \<Rightarrow> path" where
  \<comment> \<open>lines 174 to 181\<close>
  "deploy_path_of e protocol =
     pjoins (PROJECT_ROOT e) [''test'', protocol, ''scripts'', ''data'', ''deployment.json'']"

definition output_path_of :: "env \<Rightarrow> string \<Rightarrow> path" where
  \<comment> \<open>line 182: \<open>OUTPUT_ROOT / f"{project_key}.json"\<close>\<close>
  "output_path_of e protocol = pjoin (OUTPUT_ROOT e) (protocol_to_key protocol @ ''.json'')"

definition resolve_template :: "env \<Rightarrow> node \<Rightarrow> string \<Rightarrow> path" where
  \<comment> \<open>lines 169 to 173\<close>
  "resolve_template e root protocol =
     (let template_path = generated_template e protocol;
          fallback_path = fallback_template e protocol
      in if \<not> path_exists root template_path \<and> path_exists root fallback_path
         then fallback_path else template_path)"

definition process_protocol :: "env \<Rightarrow> runner \<Rightarrow> bargs \<Rightarrow> bstate \<Rightarrow> string \<Rightarrow> error + bstate" where
  \<comment> \<open>the body of the loop, lines 168 to 217\<close>
  "process_protocol e run a st protocol =
     (let project_key = protocol_to_key protocol;
          template_path = resolve_template e (disk st) protocol;
          deploy_path = deploy_path_of e protocol;
          output_path = output_path_of e protocol
      in if \<not> path_exists (disk st) template_path
         then Inr ((say a (MsgTemplateMissing protocol template_path) st)\<lparr>failed := failed st + 1\<rparr>)
         else if path_exists (disk st) output_path \<and> \<not> b_force a
         then Inr ((say a (MsgOutputExists output_path) st)\<lparr>skipped := skipped st + 1\<rparr>)
         else
           let cmd = build_command e project_key template_path deploy_path output_path (b_var a)
           in if b_dry_run a
              then Inr ((say a (MsgDryRun cmd) st)\<lparr>success := success st + 1\<rparr>)
              else (case run cmd (PROJECT_ROOT e) (disk st) of
                      Inl err \<Rightarrow> Inl err
                    | Inr (returncode, disk') \<Rightarrow>
                        let st' = (say a (MsgRun cmd) st)\<lparr>disk := disk', spawned := spawned st @ [cmd]\<rparr>
                        in if returncode = 0
                           then Inr (st'\<lparr>success := success st + 1\<rparr>)
                           else Inr (st'\<lparr>failed := failed st + 1\<rparr>)))"

fun process_all :: "env \<Rightarrow> runner \<Rightarrow> bargs \<Rightarrow> bstate \<Rightarrow> string list \<Rightarrow> error + bstate" where
  \<comment> \<open>\<open>for protocol in protocol_list\<close>\<close>
  "process_all e run a st [] = Inr st"
| "process_all e run a st (protocol # protocol_list) =
     (case process_protocol e run a st protocol of
        Inl err \<Rightarrow> Inl err
      | Inr st' \<Rightarrow> process_all e run a st' protocol_list)"

definition resolve_protocols :: "env \<Rightarrow> node \<Rightarrow> bargs \<Rightarrow> error + string list" where
  \<comment> \<open>lines 153 to 155\<close>
  "resolve_protocols e root a =
     (let protocol_list = parse_protocols (b_protocols a)
      in if protocol_list = [] then collect_protocols e root (b_filter a)
         else Inr protocol_list)"

definition batch_main :: "env \<Rightarrow> runner \<Rightarrow> node \<Rightarrow> bargs \<Rightarrow> error + (int \<times> bstate)" where
  \<comment> \<open>\<open>main\<close> of batch\_generate\_config.py: the exit code and the final state\<close>
  "batch_main e run root a =
     (let st0 = \<lparr>disk = root, success = 0, skipped = 0, failed = 0, printed = [], spawned = []\<rparr>
      in case resolve_protocols e root a of
           Inl err \<Rightarrow> Inl err
         | Inr protocol_list \<Rightarrow>
             if protocol_list = [] then Inr (1, st0\<lparr>printed := [MsgNoProtocols]\<rparr>)
             else (case mkdir_parents root (OUTPUT_ROOT e) of
                     Inl err \<Rightarrow> Inl err
                   | Inr root' \<Rightarrow>
                       (case process_all e run a (st0\<lparr>disk := root'\<rparr>) protocol_list of
                          Inl err \<Rightarrow> Inl err
                        | Inr st \<Rightarrow>
                            Inr (if failed st = 0 then 0 else 1,
                                 st\<lparr>printed := printed st @
                                      [MsgSummary (success st) (skipped st) (failed st)]\<rparr>))))"


section \<open>Example inputs\<close>

definition example_lib :: "unit pylib" where
  \<open>example_lib =
     \<lparr>normpath = (\<lambda>p. p),
      json_loads = (\<lambda>s. if s = ''{"id":"x","list":["y",""]}''
                         then Some (JObj [(''id'', JStr ''x''), (''list'', JArr [JStr ''y'', JStr []])])
                         else None),
      str_other = (\<lambda>v. []),
      title = (\<lambda>s. s)\<rparr>\<close>

definition example_mapping :: "unit mapping" where
  "example_mapping = [''project_id'' \<mapsto> JStr ''x'', ''a'' \<mapsto> JStr ''y'']"

definition example_world :: "unit world" where
  "example_world =
     \<lparr>deploy_files = [''deploy.json'' \<mapsto> [(''a'', JStr ''1'')]], text_files = Map.empty\<rparr>"

definition example_env :: env where
  "example_env =
     \<lparr>script_file = Path False [''repo'', ''autopath'', ''batch_generate_config.py''],
      executable = ''python3''\<rparr>"

definition example_disk :: node where
  \<open>example_disk =
     Dir [(''repo'',
           Dir [(''generated'',
                 Dir [(''Foo_exp'', Dir [(''foo_dynamic.json.tmpl'', File ''{}'')])]),
                (''autopath'', Dir [])])]\<close>

definition example_args :: bargs where
  "example_args =
     \<lparr>b_filter = [], b_protocols = Some [''Foo_exp''], b_var = [],
      b_force = False, b_dry_run = True, b_quiet = False\<rparr>"

definition example_run :: runner where
  \<comment> \<open>a child that succeeds and leaves the disk as it is\<close>
  "example_run cmd cwd d = Inr (0, d)"

definition example_disk_out :: node where
  \<comment> \<open>\<open>example_disk\<close> with the output root created\<close>
  \<open>example_disk_out =
     Dir [(''repo'',
           Dir [(''generated'',
                 Dir [(''Foo_exp'', Dir [(''foo_dynamic.json.tmpl'', File ''{}'')])]),
                (''autopath'',
                 Dir [(''pkg'', Dir [(''invariants'', Dir [(''configs'', Dir [])])])])])]\<close>

definition example_disk_done :: node where
  \<comment> \<open>\<open>example_disk\<close> with the config of \<open>Foo_exp\<close> already written\<close>
  \<open>example_disk_done =
     Dir [(''repo'',
           Dir [(''generated'',
                 Dir [(''Foo_exp'', Dir [(''foo_dynamic.json.tmpl'', File ''{}'')])]),
                (''autopath'',
                 Dir [(''pkg'', Dir [(''invariants'', Dir [(''configs'',
                   Dir [(''foo.json'', File ''{}'')])])])])])]\<close>

definition example_disk_empty :: node where
  \<comment> \<open>a disk with no protocol directory\<close>
  \<open>example_disk_empty =
     Dir [(''repo'',
           Dir [(''DeFiHackLabs'', Dir [(''extracted_contracts'', Dir [])]),
                (''autopath'', Dir [])])]\<close>

definition example_disk_nested :: node where
  \<comment> \<open>a protocol given with its month, \<open>2024-01/Foo_exp\<close>, template and config present\<close>
  \<open>example_disk_nested =
     Dir [(''repo'',
           Dir [(''generated'',
                 Dir [(''2024-01'', Dir [(''Foo_exp'', Dir [(''2024-01'',
                   Dir [(''foo_dynamic.json.tmpl'', File ''{}'')])])])]),
                (''autopath'',
                 Dir [(''pkg'', Dir [(''invariants'', Dir [(''configs'',
                   Dir [(''2024-01'', Dir [(''foo.json'', File ''{}'')])])])])])])]\<close>

definition example_state :: "node \<Rightarrow> bstate" where
  "example_state d =
     \<lparr>disk = d, success = 0, skipped = 0, failed = 0, printed = [], spawned = []\<rparr>"

section \<open>Properties of the string methods\<close>

lemma of_char_lower_char:
  "(of_char (lower_char c) :: nat) =
     (let n = (of_char c :: nat) in
      if (65 \<le> n \<and> n \<le> 90) \<or> (192 \<le> n \<and> n \<le> 222 \<and> n \<noteq> 215) then n + 32 else n)"
  by (auto simp: lower_char_def Let_def)

lemma lower_char_fixed:
  "\<not> ((65 \<le> (of_char d :: nat) \<and> (of_char d :: nat) \<le> 90) \<or>
      (192 \<le> (of_char d :: nat) \<and> (of_char d :: nat) \<le> 222 \<and> (of_char d :: nat) \<noteq> 215))
   \<Longrightarrow> lower_char d = d"
  by (auto simp add: lower_char_def Let_def)

lemma lower_char_idem: "lower_char (lower_char c) = lower_char c"
proof -
  let ?n = "of_char (lower_char c) :: nat"
  have "\<not> ((65 \<le> ?n \<and> ?n \<le> 90) \<or> (192 \<le> ?n \<and> ?n \<le> 222 \<and> ?n \<noteq> 215))"
    unfolding of_char_lower_char by (auto simp: Let_def)
  then show ?thesis
    by (rule lower_char_fixed)
qed

lemma lower_char_underscore: "lower_char CHR ''_'' = CHR ''_''"
  by code_simp

lemma stable_underscore: "stable_char CHR ''_''"
  by (simp add: stable_char_def lower_char_underscore)

lemma stable_lower_char: "lower_char c \<noteq> CHR '' '' \<Longrightarrow> stable_char (lower_char c)"
  by (simp add: stable_char_def lower_char_idem)

lemma replace_lower_stable: "\<forall>c \<in> set (replace_space (lower s)). stable_char c"
  by (auto simp: replace_space_def lower_def stable_underscore stable_lower_char)

lemma stable_fixed:
  assumes "\<forall>c \<in> set k. stable_char c"
  shows "replace_space (lower k) = k"
proof -
  have "lower k = k"
    unfolding lower_def using assms by (intro map_idI) (simp add: stable_char_def)
  moreover have "replace_space k = k"
    unfolding replace_space_def using assms by (intro map_idI) (auto simp: stable_char_def)
  ultimately show ?thesis by simp
qed

lemma set_strip: "set (strip s) \<subseteq> set s"
proof -
  have "set (strip s) \<subseteq> set (dropWhile is_space s)"
    unfolding strip_def using set_dropWhileD by fastforce
  also have "\<dots> \<subseteq> set s"
    using set_dropWhileD by fastforce
  finally show ?thesis .
qed

lemma length_strip: "length (strip s) \<le> length s"
proof -
  have "length (strip s) \<le> length (dropWhile is_space s)"
    unfolding strip_def using length_dropWhile_le [of is_space "rev (dropWhile is_space s)"] by simp
  also have "\<dots> \<le> length s" by (rule length_dropWhile_le)
  finally show ?thesis .
qed

lemma dropWhile_same_length:
  assumes "length (dropWhile P xs) = length xs"
  shows "dropWhile P xs = xs"
proof -
  have "length (takeWhile P xs) + length (dropWhile P xs) = length xs"
    by (metis length_append takeWhile_dropWhile_id)
  with assms have "takeWhile P xs = []" by simp
  then show ?thesis
    using takeWhile_dropWhile_id [of P xs] by simp
qed

lemma strip_same_length:
  assumes "length (strip s) = length s"
  shows "strip s = s"
proof -
  let ?d = "dropWhile is_space s"
  have a: "length (strip s) \<le> length ?d"
    unfolding strip_def using length_dropWhile_le [of is_space "rev ?d"] by simp
  have b: "length ?d \<le> length s" by (rule length_dropWhile_le)
  from a b assms have "length ?d = length s" by simp
  then have d: "?d = s" by (rule dropWhile_same_length)
  with assms have "length (dropWhile is_space (rev s)) = length (rev s)"
    by (simp add: strip_def)
  then have "dropWhile is_space (rev s) = rev s" by (rule dropWhile_same_length)
  with d show ?thesis by (simp add: strip_def)
qed

lemma endswith_length: "endswith s suf \<Longrightarrow> length suf \<le> length s"
  by (simp add: endswith_def)

lemma startswith_iff: "startswith s pre \<longleftrightarrow> (\<exists>post. s = pre @ post)"
proof
  assume "startswith s pre"
  then have "s = pre @ drop (length pre) s"
    by (metis append_take_drop_id startswith_def)
  then show "\<exists>post. s = pre @ post" ..
next
  assume "\<exists>post. s = pre @ post"
  then show "startswith s pre" by (auto simp: startswith_def)
qed

text \<open>\<open>contains s sub\<close> is Python's \<open>sub in s\<close>: \<open>sub\<close> occurs somewhere in \<open>s\<close>.\<close>

lemma contains_iff: "contains s sub \<longleftrightarrow> (\<exists>pre post. s = pre @ sub @ post)"
proof (induction s)
  case Nil
  then show ?case by auto
next
  case (Cons c cs)
  show ?case
  proof
    assume "contains (c # cs) sub"
    then consider "startswith (c # cs) sub" | "contains cs sub" by auto
    then show "\<exists>pre post. c # cs = pre @ sub @ post"
    proof cases
      case 1
      then obtain post where "c # cs = sub @ post" by (auto simp: startswith_iff)
      then have "c # cs = [] @ sub @ post" by simp
      then show ?thesis by blast
    next
      case 2
      with Cons.IH obtain pre post where "cs = pre @ sub @ post" by blast
      then have "c # cs = (c # pre) @ sub @ post" by simp
      then show ?thesis by blast
    qed
  next
    assume "\<exists>pre post. c # cs = pre @ sub @ post"
    then obtain pre post where e: "c # cs = pre @ sub @ post" by blast
    show "contains (c # cs) sub"
    proof (cases pre)
      case Nil
      with e have "startswith (c # cs) sub" by (auto simp: startswith_iff)
      then show ?thesis by simp
    next
      case (Cons p ps)
      with e have "cs = ps @ sub @ post" by simp
      with Cons.IH have "contains cs sub" by blast
      then show ?thesis by simp
    qed
  qed
qed

section \<open>The project key\<close>

lemma key_prefix: "set (protocol_to_key x) \<subseteq> set (replace_space (lower (strip x)))"
  by (auto simp: protocol_to_key_def Let_def dest: in_set_takeD)

lemma key_stable: "\<forall>c \<in> set (protocol_to_key x). stable_char c"
  using key_prefix [of x] replace_lower_stable [of "strip x"] by blast

lemma key_of_stable:
  assumes "\<forall>c \<in> set k. stable_char c"
  shows "protocol_to_key k =
           (if endswith (strip k) ''_exp'' then take (length (strip k) - 4) (strip k) else strip k)"
proof -
  have "\<forall>c \<in> set (strip k). stable_char c"
    using assms set_strip [of k] by blast
  then have "replace_space (lower (strip k)) = strip k" by (rule stable_fixed)
  then show ?thesis by (simp add: protocol_to_key_def Let_def)
qed

text \<open>
  C5, as stated, fails: only one \<open>_exp\<close> suffix is stripped, so the key of
  \<open>a_exp_exp\<close> is \<open>a_exp\<close>, whose key is \<open>a\<close>.
\<close>

theorem protocol_to_key_not_idempotent:
  "protocol_to_key (protocol_to_key ''a_exp_exp'') \<noteq> protocol_to_key ''a_exp_exp''"
  by code_simp

text \<open>
  C5 (amended): the key derivation is idempotent at \<open>x\<close> exactly when the key of \<open>x\<close>
  does not itself end in \<open>_exp\<close> and has no white space left at its ends:
  \<open>key(key(x)) = key(x)\<close> holds for those \<open>x\<close>, and for no others.
\<close>

theorem protocol_to_key_idempotent_iff:
  "protocol_to_key (protocol_to_key x) = protocol_to_key x \<longleftrightarrow>
     \<not> endswith (protocol_to_key x) ''_exp'' \<and> strip (protocol_to_key x) = protocol_to_key x"
proof -
  let ?k = "protocol_to_key x"
  have eq: "protocol_to_key ?k =
      (if endswith (strip ?k) ''_exp'' then take (length (strip ?k) - 4) (strip ?k) else strip ?k)"
    using key_stable by (rule key_of_stable)
  show ?thesis
  proof
    assume fixed: "protocol_to_key ?k = ?k"
    have len: "length (protocol_to_key ?k) \<le> length (strip ?k)"
      by (simp add: eq)
    with fixed length_strip [of ?k] have "length (strip ?k) = length ?k" by simp
    then have s: "strip ?k = ?k" by (rule strip_same_length)
    have "\<not> endswith ?k ''_exp''"
    proof
      assume e: "endswith ?k ''_exp''"
      then have "4 \<le> length ?k" using endswith_length [of ?k "''_exp''"] by simp
      moreover from e s eq have "length (protocol_to_key ?k) = length ?k - 4" by simp
      ultimately show False using fixed by simp
    qed
    with s show "\<not> endswith ?k ''_exp'' \<and> strip ?k = ?k" by simp
  next
    assume "\<not> endswith ?k ''_exp'' \<and> strip ?k = ?k"
    with eq show "protocol_to_key ?k = ?k" by simp
  qed
qed

text \<open>The spec's example: \<open>Foo_EXP\<close> gives \<open>foo\<close>, a fixed point of the derivation.\<close>

theorem protocol_to_key_idempotent_iff_witness:
  "protocol_to_key (protocol_to_key ''Foo_EXP'') = protocol_to_key ''Foo_EXP'' \<and>
   protocol_to_key ''Foo_EXP'' = ''foo''"
proof -
  have a: "\<not> endswith (protocol_to_key ''Foo_EXP'') ''_exp''" by code_simp
  have b: "strip (protocol_to_key ''Foo_EXP'') = protocol_to_key ''Foo_EXP''" by code_simp
  have c: "protocol_to_key ''Foo_EXP'' = ''foo''" by code_simp
  from a b c protocol_to_key_idempotent_iff [of "''Foo_EXP''"] show ?thesis by blast
qed

section \<open>The cleanup pass\<close>

lemma is_empty_str_iff: "is_empty_str v \<longleftrightarrow> v = JStr []"
  by (cases v) (simp_all add: is_empty_str_def)

lemma is_empty_str_cleanup: "is_empty_str (cleanup_config v) = is_empty_str v"
  by (cases v) (simp_all add: is_empty_str_def Let_def)

lemma cleanup_config_idem: "cleanup_config (cleanup_config v) = cleanup_config v"
proof (induction v rule: cleanup_config.induct)
  case (1 xs)
  then show ?case
    by (simp add: Let_def filter_map o_def is_empty_str_cleanup)
next
  case (2 kvs)
  then show ?case by auto
qed simp_all

lemma cleanup_config_empty_str: "cleanup_config x = JStr [] \<longleftrightarrow> x = JStr []"
  using is_empty_str_cleanup [of x] by (simp add: is_empty_str_iff)

lemma cleanup_config_array:
  "cleanup_config (JArr xs) = JArr (map cleanup_config (filter (\<lambda>x. x \<noteq> JStr []) xs))"
  by (simp add: Let_def filter_map o_def is_empty_str_iff cleanup_config_empty_str)

lemma no_empty_strings_cleanup: "no_empty_strings (cleanup_config v)"
proof (induction v rule: cleanup_config.induct)
  case (1 xs)
  then show ?case
    by (auto simp: Let_def list_all_iff is_empty_str_iff)
next
  case (2 kvs)
  then show ?case by (auto simp: list_all_iff)
qed simp_all

lemma cleanup_config_fixed: "no_empty_strings v \<Longrightarrow> cleanup_config v = v"
proof (induction v rule: cleanup_config.induct)
  case (1 xs)
  then have "map cleanup_config xs = xs"
    by (intro map_idI) (auto simp: list_all_iff)
  moreover from 1 have "filter (\<lambda>item. \<not> is_empty_str item) xs = xs"
    by (auto simp: list_all_iff is_empty_str_iff filter_id_conv)
  ultimately show ?case by (simp add: Let_def)
next
  case (2 kvs)
  then have "map (\<lambda>(k, v). (k, cleanup_config v)) kvs = kvs"
    by (intro map_idI) (auto simp: list_all_iff)
  then show ?case by simp
qed simp_all

lemma cleanup_config_fixed_iff: "cleanup_config v = v \<longleftrightarrow> no_empty_strings v"
  using no_empty_strings_cleanup [of v] cleanup_config_fixed [of v] by auto

text \<open>
  C9: the cleanup pass is idempotent. It is the recursive pass the spec describes: from
  an array it drops exactly the elements that are the empty string and cleans the others,
  in an object it cleans every value under its key, and it leaves a scalar as it is. Its
  result has no empty string left in any array, at any depth, and the values it leaves
  unchanged are exactly those that had none.
\<close>

theorem cleanup_config_idempotent:
  "cleanup_config (cleanup_config v) = cleanup_config v \<and>
   cleanup_config (JArr xs) = JArr (map cleanup_config (filter (\<lambda>x. x \<noteq> JStr []) xs)) \<and>
   cleanup_config (JObj kvs) = JObj (map (\<lambda>(k, w). (k, cleanup_config w)) kvs) \<and>
   cleanup_config JNull = JNull \<and> cleanup_config (JBool b) = JBool b \<and>
   cleanup_config (JInt i) = JInt i \<and> cleanup_config (JFloat f) = JFloat f \<and>
   cleanup_config (JStr s) = JStr s \<and>
   no_empty_strings (cleanup_config v) \<and>
   (cleanup_config v = v \<longleftrightarrow> no_empty_strings v)"
  using cleanup_config_idem [of v] cleanup_config_array [of xs]
    no_empty_strings_cleanup [of v] cleanup_config_fixed_iff [of v]
  by simp

text \<open>An object with an array, and an array nested in an object in an array.\<close>

theorem cleanup_config_idempotent_witness:
  "cleanup_config (JObj [(''contracts'', JArr [JStr ''0xAb'', JStr []]),
                         (''nested'', JArr [JObj [(''k'', JArr [JStr [], JInt 0, JNull])]])] :: unit json)
     = JObj [(''contracts'', JArr [JStr ''0xAb'']),
             (''nested'', JArr [JObj [(''k'', JArr [JInt 0, JNull])]])] \<and>
   cleanup_config (JObj [(''contracts'', JArr [JStr ''0xAb'']),
             (''nested'', JArr [JObj [(''k'', JArr [JInt 0, JNull])]])] :: unit json)
     = JObj [(''contracts'', JArr [JStr ''0xAb'']),
             (''nested'', JArr [JObj [(''k'', JArr [JInt 0, JNull])]])]"
proof -
  let ?v = "JObj [(''contracts'', JArr [JStr ''0xAb'', JStr []]),
                  (''nested'', JArr [JObj [(''k'', JArr [JStr [], JInt 0, JNull])]])] :: unit json"
  let ?w = "JObj [(''contracts'', JArr [JStr ''0xAb'']),
                  (''nested'', JArr [JObj [(''k'', JArr [JInt 0, JNull])]])] :: unit json"
  have a: "cleanup_config ?v = ?w"
    by (simp add: is_empty_str_def)
  have "cleanup_config (cleanup_config ?v) = cleanup_config ?v"
    by (rule cleanup_config_idempotent [of ?v, THEN conjunct1])
  with a show ?thesis by simp
qed

section \<open>Template rendering\<close>

lemma not_id_lbrace: "\<not> is_id_start CHR ''{''"
  by code_simp

lemma not_id_rbrace: "\<not> is_id_char CHR ''}''"
  by code_simp

lemma not_id_dollar: "\<not> is_id_start CHR ''$''"
  by code_simp

lemma match_braced:
  assumes "is_identifier name"
  shows "match_delimiter (CHR ''{'' # name @ CHR ''}'' # rest) = Braced name rest"
proof -
  from assms have ne: "name \<noteq> []" and st: "is_id_start (hd name)"
    and al: "\<And>x. x \<in> set name \<Longrightarrow> is_id_char x"
    by (auto simp: is_identifier_def list_all_iff)
  have d: "dropWhile is_id_char (name @ CHR ''}'' # rest) = CHR ''}'' # rest"
    using al not_id_rbrace by (simp add: dropWhile_append2)
  have t: "takeWhile is_id_char (name @ CHR ''}'' # rest) = name"
    using al not_id_rbrace by (simp add: takeWhile_append2)
  from ne st show ?thesis
    by (simp add: match_delimiter_def not_id_lbrace d t startswith_def)
qed

lemma match_named:
  assumes "is_identifier name" and "rest = [] \<or> \<not> is_id_char (hd rest)"
  shows "match_delimiter (name @ rest) = Named name rest"
proof -
  from assms have ne: "name \<noteq> []" and st: "is_id_start (hd name)"
    and al: "\<And>x. x \<in> set name \<Longrightarrow> is_id_char x"
    by (auto simp: is_identifier_def list_all_iff)
  have r: "dropWhile is_id_char rest = rest" "takeWhile is_id_char rest = []"
    using assms(2) by (cases rest; simp)+
  have d: "dropWhile is_id_char (name @ rest) = rest"
    using al r by (simp add: dropWhile_append2)
  have t: "takeWhile is_id_char (name @ rest) = name"
    using al r by (simp add: takeWhile_append2)
  from ne obtain c cs where n: "name = c # cs" by (cases name) auto
  with st have "c \<noteq> CHR ''$''" using not_id_dollar by auto
  with n st show ?thesis
    using d t by (simp add: match_delimiter_def)
qed

text \<open>A braced placeholder whose key is absent stays as it is; one whose key is present
  is replaced by the value. The same holds for the unbraced form \<open>$name\<close>.\<close>

lemma safe_braced_absent:
  assumes "is_identifier name" and "m name = None"
  shows "safe_substitute m (''${'' @ name @ ''}'' @ rest) = ''${'' @ name @ ''}'' @ safe_substitute m rest"
  using assms by (simp add: match_braced)

lemma safe_braced_present:
  assumes "is_identifier name" and "m name = Some v"
  shows "safe_substitute m (''${'' @ name @ ''}'' @ rest) = v @ safe_substitute m rest"
  using assms by (simp add: match_braced)

lemma safe_named_absent:
  assumes "is_identifier name" and "m name = None" and "rest = [] \<or> \<not> is_id_char (hd rest)"
  shows "safe_substitute m (''$'' @ name @ rest) = ''$'' @ name @ safe_substitute m rest"
  using assms by (simp add: match_named)

lemma safe_substitute_prefix:
  "CHR ''$'' \<notin> set pre \<Longrightarrow> safe_substitute m (pre @ s) = pre @ safe_substitute m s"
  by (induction pre) auto

lemma match_delimiter_source:
  "match_delimiter cs = Escaped rest \<Longrightarrow> cs = CHR ''$'' # rest"
  "match_delimiter cs = Named name rest \<Longrightarrow> cs = name @ rest"
  "match_delimiter cs = Braced name rest \<Longrightarrow> cs = CHR ''{'' # name @ CHR ''}'' # rest"
proof -
  show "match_delimiter cs = Escaped rest \<Longrightarrow> cs = CHR ''$'' # rest"
    by (auto simp: match_delimiter_def split: list.splits if_splits)
  show "match_delimiter cs = Named name rest \<Longrightarrow> cs = name @ rest"
    by (auto simp: match_delimiter_def split: list.splits if_splits)
  assume "match_delimiter cs = Braced name rest"
  then obtain ds where cs: "cs = CHR ''{'' # ds"
    and n: "name = takeWhile is_id_char ds" and r: "rest = tl (dropWhile is_id_char ds)"
    and s: "startswith (dropWhile is_id_char ds) ''}''"
    by (auto simp: match_delimiter_def split: list.splits if_splits)
  from s have "dropWhile is_id_char ds = CHR ''}'' # rest"
    unfolding r by (cases "dropWhile is_id_char ds") (auto simp: startswith_def)
  then have "ds = name @ CHR ''}'' # rest"
    unfolding n by (metis takeWhile_dropWhile_id)
  with cs show "cs = CHR ''{'' # name @ CHR ''}'' # rest" by simp
qed

lemma id_start_is_id_char: "is_id_start c \<Longrightarrow> is_id_char c"
  by (auto simp: is_id_start_def is_id_char_def Let_def)

lemma takeWhile_identifier:
  assumes "xs \<noteq> []" and "is_id_start (hd xs)"
  shows "is_identifier (takeWhile is_id_char xs)"
proof -
  from assms obtain d ds where xs: "xs = d # ds" and d: "is_id_start d"
    by (cases xs) auto
  from d have "takeWhile is_id_char xs = d # takeWhile is_id_char ds"
    unfolding xs by (simp add: id_start_is_id_char)
  moreover have "list_all is_id_char (takeWhile is_id_char ds)"
    by (auto simp: list_all_iff dest: set_takeWhileD)
  ultimately show ?thesis
    using d by (simp add: is_identifier_def id_start_is_id_char)
qed

lemma match_delimiter_identifier:
  "match_delimiter cs = Named name rest \<Longrightarrow> is_identifier name"
  "match_delimiter cs = Braced name rest \<Longrightarrow> is_identifier name"
proof -
  assume "match_delimiter cs = Named name rest"
  then have "cs \<noteq> [] \<and> is_id_start (hd cs) \<and> name = takeWhile is_id_char cs"
    by (auto simp: match_delimiter_def split: list.splits if_splits)
  then show "is_identifier name" by (simp add: takeWhile_identifier)
next
  assume "match_delimiter cs = Braced name rest"
  then have "\<exists>ds. ds \<noteq> [] \<and> is_id_start (hd ds) \<and> name = takeWhile is_id_char ds"
    by (auto simp: match_delimiter_def split: list.splits if_splits)
  then show "is_identifier name" by (auto simp: takeWhile_identifier)
qed

lemma tokenize_source: "concat (map token_source (tokenize T)) = T"
proof (induction T rule: tokenize.induct)
  case 1
  then show ?case by simp
next
  case (2 c cs)
  show ?case
  proof (cases "c = CHR ''$''")
    case False
    with 2 show ?thesis by simp
  next
    case True
    show ?thesis
    proof (cases "match_delimiter cs")
      case (Escaped rest)
      with True 2 match_delimiter_source(1) [OF Escaped] show ?thesis by simp
    next
      case (Named name rest)
      with True 2 match_delimiter_source(2) [OF Named] show ?thesis by simp
    next
      case (Braced name rest)
      with True 2 match_delimiter_source(3) [OF Braced] show ?thesis by simp
    next
      case Invalid
      with True 2 show ?thesis by simp
    qed
  qed
qed

lemma safe_substitute_tokens: "safe_substitute m T = concat (map (convert m) (tokenize T))"
proof (induction T rule: tokenize.induct)
  case 1
  then show ?case by simp
next
  case (2 c cs)
  show ?case
  proof (cases "c = CHR ''$''")
    case False
    with 2 show ?thesis by simp
  next
    case True
    with 2 show ?thesis by (cases "match_delimiter cs") (simp_all split: option.splits)
  qed
qed

lemma tokenize_identifier:
  "TNamed name \<in> set (tokenize T) \<or> TBraced name \<in> set (tokenize T) \<Longrightarrow> is_identifier name"
proof (induction T rule: tokenize.induct)
  case 1
  then show ?case by simp
next
  case (2 c cs)
  show ?case
  proof (cases "c = CHR ''$''")
    case False
    with 2 show ?thesis by simp
  next
    case True
    show ?thesis
    proof (cases "match_delimiter cs")
      case (Escaped rest)
      with True 2 show ?thesis by auto
    next
      case (Named n rest)
      with True 2 match_delimiter_identifier(1) [OF Named] show ?thesis by auto
    next
      case (Braced n rest)
      with True 2 match_delimiter_identifier(2) [OF Braced] show ?thesis by auto
    next
      case Invalid
      with True 2 show ?thesis by auto
    qed
  qed
qed

lemma braced_absent_marker:
  assumes "TBraced name \<in> set (tokenize T)" and "m name = None"
  shows "contains (safe_substitute m T) ''${''"
proof -
  from assms(1) obtain xs ys where "tokenize T = xs @ TBraced name # ys"
    by (auto simp: in_set_conv_decomp)
  then have "safe_substitute m T =
      concat (map (convert m) xs) @ ''${'' @ (name @ ''}'' @ concat (map (convert m) ys))"
    using assms(2) by (simp add: safe_substitute_tokens)
  then show ?thesis unfolding contains_iff by blast
qed


lemma tokenize_prefix:
  "CHR ''$'' \<notin> set pre \<Longrightarrow> tokenize (pre @ s) = map Lit pre @ tokenize s"
  by (induction pre) auto

lemma tokenize_braced:
  assumes "is_identifier name"
  shows "tokenize (''${'' @ name @ ''}'' @ rest) = TBraced name # tokenize rest"
  using assms by (simp add: match_braced)

lemma tokenize_named:
  assumes "is_identifier name" and "rest = [] \<or> \<not> is_id_char (hd rest)"
  shows "tokenize (''$'' @ name @ rest) = TNamed name # tokenize rest"
  using assms by (simp add: match_named)

text \<open>
  C3: substitution is safe, for every template and mapping. The template is the
  concatenation of its tokens, and the substituted text is the concatenation of what
  \<open>convert\<close> gives for each of them, whatever comes before or after: a placeholder
  (\<open>${name}\<close> or \<open>$name\<close>) whose key is absent from the mapping gives its own text, one
  whose key is present gives the value as a string, and nothing is raised. The names of
  the placeholders are identifiers, and an identifier in braces after a \<open>$\<close> (or bare,
  when no identifier character follows it) is a placeholder. Given the template text,
  the render fails with the template-incomplete error exactly when the substituted text
  still contains \<open>${\<close>, so it fails whenever the template has a braced placeholder
  whose key is absent; and when the marker is absent the result is that of parsing the
  substituted text as JSON: the JSON syntax error when the parse fails, the cleaned value
  otherwise.
\<close>

theorem render_safe_then_checked:
  "concat (map token_source (tokenize T)) = T \<and>
   render_text lib T M = concat (map (convert (string_mapping lib M)) (tokenize T)) \<and>
   (M name = None \<longrightarrow>
      convert (string_mapping lib M) (TBraced name) = ''${'' @ name @ ''}'' \<and>
      convert (string_mapping lib M) (TNamed name) = ''$'' @ name) \<and>
   (M name = Some v \<longrightarrow>
      convert (string_mapping lib M) (TBraced name) = to_string lib v \<and>
      convert (string_mapping lib M) (TNamed name) = to_string lib v) \<and>
   (TNamed name \<in> set (tokenize T) \<or> TBraced name \<in> set (tokenize T) \<longrightarrow> is_identifier name) \<and>
   (CHR ''$'' \<notin> set pre \<and> is_identifier name \<longrightarrow>
      tokenize (pre @ ''${'' @ name @ ''}'' @ rest) = map Lit pre @ TBraced name # tokenize rest) \<and>
   (CHR ''$'' \<notin> set pre \<and> is_identifier name \<and> (rest = [] \<or> \<not> is_id_char (hd rest)) \<longrightarrow>
      tokenize (pre @ ''$'' @ name @ rest) = map Lit pre @ TNamed name # tokenize rest) \<and>
   (CHR ''$'' \<notin> set pre \<and> is_identifier name \<and> M name = None \<longrightarrow>
      render_text lib (pre @ ''${'' @ name @ ''}'' @ rest) M
        = pre @ ''${'' @ name @ ''}'' @ render_text lib rest M) \<and>
   (CHR ''$'' \<notin> set pre \<and> is_identifier name \<and> M name = None \<and>
    (rest = [] \<or> \<not> is_id_char (hd rest)) \<longrightarrow>
      render_text lib (pre @ ''$'' @ name @ rest) M
        = pre @ ''$'' @ name @ render_text lib rest M) \<and>
   (files p = Some T \<longrightarrow>
      (generate_from_template lib files p M = Inl TemplateIncomplete
         \<longleftrightarrow> contains (render_text lib T M) ''${'') \<and>
      (\<not> contains (render_text lib T M) ''${'' \<longrightarrow>
         generate_from_template lib files p M =
           (case json_loads lib (render_text lib T M) of
              None \<Rightarrow> Inl JSONDecodeError
            | Some data \<Rightarrow> Inr (cleanup_config data)))) \<and>
   (files p = Some T \<and> TBraced name \<in> set (tokenize T) \<and> M name = None \<longrightarrow>
      generate_from_template lib files p M = Inl TemplateIncomplete)"
proof -
  have absent: "string_mapping lib M name = None" if "M name = None"
    using that by (simp add: string_mapping_def)
  have tokens: "render_text lib T M = concat (map (convert (string_mapping lib M)) (tokenize T))"
    by (simp add: render_text_def safe_substitute_tokens)
  have kept: "convert (string_mapping lib M) (TBraced name) = ''${'' @ name @ ''}'' \<and>
      convert (string_mapping lib M) (TNamed name) = ''$'' @ name" if "M name = None"
    using absent [OF that] by simp
  have replaced: "convert (string_mapping lib M) (TBraced name) = to_string lib v \<and>
      convert (string_mapping lib M) (TNamed name) = to_string lib v" if "M name = Some v"
    using that by (simp add: string_mapping_def)
  have braced: "render_text lib (pre @ ''${'' @ name @ ''}'' @ rest) M
        = pre @ ''${'' @ name @ ''}'' @ render_text lib rest M"
    if h: "CHR ''$'' \<notin> set pre" "is_identifier name" "M name = None"
  proof -
    have "safe_substitute (string_mapping lib M) (pre @ ''${'' @ name @ ''}'' @ rest)
        = pre @ safe_substitute (string_mapping lib M) (''${'' @ name @ ''}'' @ rest)"
      using h(1) by (rule safe_substitute_prefix)
    also have "safe_substitute (string_mapping lib M) (''${'' @ name @ ''}'' @ rest)
        = ''${'' @ name @ ''}'' @ safe_substitute (string_mapping lib M) rest"
      using h(2) absent [OF h(3)] by (rule safe_braced_absent)
    finally show ?thesis by (simp add: render_text_def)
  qed
  have named: "render_text lib (pre @ ''$'' @ name @ rest) M
        = pre @ ''$'' @ name @ render_text lib rest M"
    if h: "CHR ''$'' \<notin> set pre" "is_identifier name" "M name = None"
      "rest = [] \<or> \<not> is_id_char (hd rest)"
  proof -
    have "safe_substitute (string_mapping lib M) (pre @ ''$'' @ name @ rest)
        = pre @ safe_substitute (string_mapping lib M) (''$'' @ name @ rest)"
      using h(1) by (rule safe_substitute_prefix)
    also have "safe_substitute (string_mapping lib M) (''$'' @ name @ rest)
        = ''$'' @ name @ safe_substitute (string_mapping lib M) rest"
      using h(2) absent [OF h(3)] h(4) by (rule safe_named_absent)
    finally show ?thesis by (simp add: render_text_def)
  qed
  have tbraced: "tokenize (pre @ ''${'' @ name @ ''}'' @ rest)
        = map Lit pre @ TBraced name # tokenize rest"
    if h: "CHR ''$'' \<notin> set pre" "is_identifier name"
  proof -
    have "tokenize (pre @ ''${'' @ name @ ''}'' @ rest)
        = map Lit pre @ tokenize (''${'' @ name @ ''}'' @ rest)"
      using h(1) by (rule tokenize_prefix)
    also have "tokenize (''${'' @ name @ ''}'' @ rest) = TBraced name # tokenize rest"
      using h(2) by (rule tokenize_braced)
    finally show ?thesis .
  qed
  have tnamed: "tokenize (pre @ ''$'' @ name @ rest) = map Lit pre @ TNamed name # tokenize rest"
    if h: "CHR ''$'' \<notin> set pre" "is_identifier name" "rest = [] \<or> \<not> is_id_char (hd rest)"
  proof -
    have "tokenize (pre @ ''$'' @ name @ rest) = map Lit pre @ tokenize (''$'' @ name @ rest)"
      using h(1) by (rule tokenize_prefix)
    also have "tokenize (''$'' @ name @ rest) = TNamed name # tokenize rest"
      using h(2) h(3) by (rule tokenize_named)
    finally show ?thesis .
  qed
  have incomplete: "generate_from_template lib files p M = Inl TemplateIncomplete
         \<longleftrightarrow> contains (render_text lib T M) ''${''" if "files p = Some T"
    using that by (simp add: generate_from_template_def Let_def split: option.splits)
  have parsed: "generate_from_template lib files p M =
           (case json_loads lib (render_text lib T M) of
              None \<Rightarrow> Inl JSONDecodeError
            | Some data \<Rightarrow> Inr (cleanup_config data))"
    if "files p = Some T" "\<not> contains (render_text lib T M) ''${''"
    using that by (simp add: generate_from_template_def Let_def)
  have rejected: "generate_from_template lib files p M = Inl TemplateIncomplete"
    if "files p = Some T" "TBraced name \<in> set (tokenize T)" "M name = None"
  proof -
    have "contains (render_text lib T M) ''${''"
      unfolding render_text_def using that(2) absent [OF that(3)] by (rule braced_absent_marker)
    with incomplete [OF that(1)] show ?thesis by simp
  qed
  from tokenize_source [of T] tokens kept replaced tokenize_identifier [of name T]
    tbraced tnamed braced named incomplete parsed rejected
  show ?thesis by blast
qed

text \<open>
  A template whose first placeholder is present and whose second is absent keeps the
  second and is rejected; the spec's end-to-end scenario renders to
  \<open>{"id":"x","list":["y"]}\<close>.
\<close>

theorem render_safe_then_checked_witness:
  \<open>render_text example_lib ''{"a":"${a}","b":"${b}"}'' example_mapping = ''{"a":"y","b":"${b}"}'' \<and>
   generate_from_template example_lib [''t.tmpl'' \<mapsto> ''{"a":"${a}","b":"${b}"}''] ''t.tmpl'' example_mapping
     = Inl TemplateIncomplete \<and>
   render_text example_lib ''{"addr":"${addr}"}'' example_mapping = ''{"addr":"${addr}"}'' \<and>
   render_text example_lib ''{"addr":"$addr"}'' example_mapping = ''{"addr":"$addr"}'' \<and>
   generate_from_template example_lib [''t.tmpl'' \<mapsto> ''{"id":"${project_id}","list":["${a}",""]}'']
       ''t.tmpl'' example_mapping
     = Inr (JObj [(''id'', JStr ''x''), (''list'', JArr [JStr ''y''])]) \<and>
   generate_from_template example_lib [''t.tmpl'' \<mapsto> ''{"addr":"${addr}"}''] ''t.tmpl'' example_mapping
     = Inl TemplateIncomplete\<close>
proof -
  let ?T1 = \<open>''{"id":"${project_id}","list":["${a}",""]}''\<close>
  let ?T2 = \<open>''{"addr":"${addr}"}''\<close>
  let ?T3 = \<open>''{"a":"${a}","b":"${b}"}''\<close>
  let ?pre = \<open>''{"addr":"''\<close>
  let ?rest = \<open>''"}''\<close>
  note first = render_safe_then_checked [where T = ?T3 and lib = example_lib
      and M = example_mapping and name = "''b''" and files = "[''t.tmpl'' \<mapsto> ?T3]"
      and p = "''t.tmpl''"]
  note inst = render_safe_then_checked [where pre = ?pre and name = "''addr''"
      and M = example_mapping and lib = example_lib and rest = ?rest]
  have toks: \<open>concat (map (convert (string_mapping example_lib example_mapping)) (tokenize ?T3))
      = ''{"a":"y","b":"${b}"}''\<close>
    by code_simp
  have tb: "TBraced ''b'' \<in> set (tokenize ?T3)" by code_simp
  have nb: "example_mapping ''b'' = None" by (simp add: example_mapping_def)
  have f3: "[''t.tmpl'' \<mapsto> ?T3] ''t.tmpl'' = Some ?T3" by simp
  have r3: \<open>render_text example_lib ?T3 example_mapping = ''{"a":"y","b":"${b}"}''\<close>
    using first toks by simp
  have g3: "generate_from_template example_lib [''t.tmpl'' \<mapsto> ?T3] ''t.tmpl'' example_mapping
     = Inl TemplateIncomplete"
    using first f3 tb nb by blast
  have pre: "CHR ''$'' \<notin> set ?pre" by simp
  have ident: "is_identifier ''addr''" by code_simp
  have absent: "example_mapping ''addr'' = None" by (simp add: example_mapping_def)
  have rest: "?rest = [] \<or> \<not> is_id_char (hd ?rest)" by code_simp
  have rr: "render_text example_lib ?rest example_mapping = ?rest" by code_simp
  have r1: \<open>render_text example_lib ?T1 example_mapping = ''{"id":"x","list":["y",""]}''\<close>
    by code_simp
  have clean: \<open>\<not> contains (render_text example_lib ?T1 example_mapping) ''${''\<close>
    unfolding r1 by code_simp
  have marked: \<open>contains (render_text example_lib ?T2 example_mapping) ''${''\<close>
    by code_simp
  have loads: \<open>json_loads example_lib ''{"id":"x","list":["y",""]}'' =
      Some (JObj [(''id'', JStr ''x''), (''list'', JArr [JStr ''y'', JStr []])])\<close>
    by (simp add: example_lib_def)
  have cl: "cleanup_config (JObj [(''id'', JStr ''x''), (''list'', JArr [JStr ''y'', JStr []])] :: unit json)
      = JObj [(''id'', JStr ''x''), (''list'', JArr [JStr ''y''])]"
    by (simp add: is_empty_str_def)
  have a: \<open>render_text example_lib ?T2 example_mapping = ?T2\<close>
  proof -
    from pre ident absent inst
    have "render_text example_lib (?pre @ ''${'' @ ''addr'' @ ''}'' @ ?rest) example_mapping
        = ?pre @ ''${'' @ ''addr'' @ ''}'' @ render_text example_lib ?rest example_mapping"
      by blast
    then show ?thesis unfolding rr by simp
  qed
  have a': \<open>render_text example_lib ''{"addr":"$addr"}'' example_mapping = ''{"addr":"$addr"}''\<close>
  proof -
    from pre ident absent rest inst
    have "render_text example_lib (?pre @ ''$'' @ ''addr'' @ ?rest) example_mapping
        = ?pre @ ''$'' @ ''addr'' @ render_text example_lib ?rest example_mapping"
      by blast
    then show ?thesis unfolding rr by simp
  qed
  have f1: "[''t.tmpl'' \<mapsto> ?T1] ''t.tmpl'' = Some ?T1" by simp
  have f2: "[''t.tmpl'' \<mapsto> ?T2] ''t.tmpl'' = Some ?T2" by simp
  have b: "generate_from_template example_lib [''t.tmpl'' \<mapsto> ?T1] ''t.tmpl'' example_mapping
     = Inr (JObj [(''id'', JStr ''x''), (''list'', JArr [JStr ''y''])])"
  proof -
    from f1 clean
    have "generate_from_template example_lib [''t.tmpl'' \<mapsto> ?T1] ''t.tmpl'' example_mapping =
           (case json_loads example_lib (render_text example_lib ?T1 example_mapping) of
              None \<Rightarrow> Inl JSONDecodeError
            | Some data \<Rightarrow> Inr (cleanup_config data))"
      using render_safe_then_checked [where T = ?T1 and lib = example_lib
          and M = example_mapping and files = "[''t.tmpl'' \<mapsto> ?T1]" and p = "''t.tmpl''"]
      by blast
    then show ?thesis by (simp only: r1 loads cl option.case)
  qed
  have c: "generate_from_template example_lib [''t.tmpl'' \<mapsto> ?T2] ''t.tmpl'' example_mapping
     = Inl TemplateIncomplete"
    using f2 marked render_safe_then_checked [where T = ?T2 and lib = example_lib
          and M = example_mapping and files = "[''t.tmpl'' \<mapsto> ?T2]" and p = "''t.tmpl''"]
    by blast
  from r3 g3 a a' b c show ?thesis by blast
qed

section \<open>The mapping of the Config Generator\<close>

lemma map_of_JStr: "map_of (map (\<lambda>(k, v). (k, JStr v)) xs) k = map_option JStr (map_of xs k)"
  by (induction xs) auto

lemma setdefault_apply:
  "setdefault m k v k' = (case m k' of Some x \<Rightarrow> Some x | None \<Rightarrow> if k' = k then Some v else None)"
  by (simp add: setdefault_def split: option.splits)

lemma strip_single:
  "strip ''b'' = ''b''" "strip ''4'' = ''4''" "strip ''c'' = ''c''" "strip ''5'' = ''5''"
  by code_simp+

lemma parse_kv_b4: "parse_kv [''b=4''] = Inr [''b'' \<mapsto> ''4'']"
  by (simp add: parse_kv_def Let_def strip_single)

lemma parse_kv_c5: "parse_kv [''c=5''] = Inr [''c'' \<mapsto> ''5'']"
  by (simp add: parse_kv_def Let_def strip_single)

lemma load_deploy_example:
  "load_deploy (lib\<lparr>normpath := (\<lambda>p. p)\<rparr>) example_world (Some ''deploy.json'')
     = ([], [''a'' \<mapsto> JStr ''1''])"
  by (simp add: load_deploy_def example_world_def py_or_def load_json_if_exists_def
      dict_update_def Let_def)

lemma merge_scenario_eval:
  "snd (build_mapping (lib\<lparr>normpath := (\<lambda>p. p)\<rparr>) example_world (Some ''deploy.json'')
          [(''a'', ''2''), (''b'', ''3'')] [''b=4''] proj outp)
   = Inr [''a'' \<mapsto> JStr ''2'', ''b'' \<mapsto> JStr ''4'',
          ''project_id'' \<mapsto> JStr (proj @ ''-dynamic''),
          ''project_name'' \<mapsto> JStr (title lib proj @ '' Project (Dynamic)''),
          ''config_path'' \<mapsto> JStr outp]"
  by (auto simp add: build_mapping_def load_deploy_example dict_update_def parse_kv_b4
      Let_def setdefault_def map_add_def fun_eq_iff)

text \<open>
  C1, as stated, fails: in the spec's scenario the merged mapping gives \<open>a\<close> the
  built-in default \<open>2\<close>, not the deployment file's \<open>1\<close>.
\<close>

theorem merge_scenario_counterexample:
  "\<not> (\<exists>m. snd (build_mapping example_lib example_world (Some ''deploy.json'')
               [(''a'', ''2''), (''b'', ''3'')] [''b=4''] ''demo'' ''out.json'') = Inr m \<and>
          m ''a'' = Some (JStr ''1'') \<and> m ''b'' = Some (JStr ''4''))"
proof -
  have "example_lib = example_lib\<lparr>normpath := (\<lambda>p. p)\<rparr>"
    by (simp add: example_lib_def)
  then have "snd (build_mapping example_lib example_world (Some ''deploy.json'')
               [(''a'', ''2''), (''b'', ''3'')] [''b=4''] ''demo'' ''out.json'')
      = Inr [''a'' \<mapsto> JStr ''2'', ''b'' \<mapsto> JStr ''4'',
          ''project_id'' \<mapsto> JStr (''demo'' @ ''-dynamic''),
          ''project_name'' \<mapsto> JStr (title example_lib ''demo'' @ '' Project (Dynamic)''),
          ''config_path'' \<mapsto> JStr ''out.json'']"
    using merge_scenario_eval [of example_lib "''demo''" "''out.json''"] by simp
  then show ?thesis by auto
qed

text \<open>
  C1 (amended): merging the deploy mapping \<open>{"a":"1"}\<close>, the built-in defaults
  \<open>{"a":"2","b":"3"}\<close> and the override list \<open>["b=4"]\<close> yields \<open>a = "2"\<close> and \<open>b = "4"\<close>
  (override beats default beats deploy), next to the three fallback keys.
\<close>

theorem merge_scenario:
  "snd (build_mapping (lib\<lparr>normpath := (\<lambda>p. p)\<rparr>) example_world (Some ''deploy.json'')
          [(''a'', ''2''), (''b'', ''3'')] [''b=4''] proj outp)
   = Inr [''a'' \<mapsto> JStr ''2'', ''b'' \<mapsto> JStr ''4'',
          ''project_id'' \<mapsto> JStr (proj @ ''-dynamic''),
          ''project_name'' \<mapsto> JStr (title lib proj @ '' Project (Dynamic)''),
          ''config_path'' \<mapsto> JStr outp]"
  by (rule merge_scenario_eval)

text \<open>
  C4: when the \<open>--var\<close> pairs parse, every key of the mapping takes its value from the
  \<open>--var\<close> pairs if they name it, else from the built-in default vars, else from the
  deployment file, and only a key none of the three names takes a fallback default
  (\<open>project_id\<close>, \<open>project_name\<close>, \<open>config_path\<close>).
\<close>

theorem mapping_precedence:
  assumes "parse_kv vars = Inr kv"
  shows "\<exists>m. snd (build_mapping lib w dp dvars vars proj outp) = Inr m \<and>
     (\<forall>k. m k =
        (case kv k of Some v \<Rightarrow> Some (JStr v) | None \<Rightarrow>
        (case map_of dvars k of Some v \<Rightarrow> Some (JStr v) | None \<Rightarrow>
        (case snd (load_deploy lib w dp) k of Some v \<Rightarrow> Some v | None \<Rightarrow>
           [''project_id'' \<mapsto> JStr (proj @ ''-dynamic''),
            ''project_name'' \<mapsto> JStr (title lib proj @ '' Project (Dynamic)''),
            ''config_path'' \<mapsto> JStr outp] k))))"
proof -
  obtain msgs m0 where ld: "load_deploy lib w dp = (msgs, m0)"
    by (cases "load_deploy lib w dp")
  define m2 where
    "m2 = dict_update m0 (map (\<lambda>(k, v). (k, JStr v)) dvars) ++ (\<lambda>k. map_option JStr (kv k))"
  define m5 where
    "m5 = setdefault
            (setdefault (setdefault m2 ''project_id'' (JStr (proj @ ''-dynamic'')))
               ''project_name'' (JStr (title lib proj @ '' Project (Dynamic)'')))
            ''config_path'' (JStr outp)"
  have r: "snd (build_mapping lib w dp dvars vars proj outp) = Inr m5"
    using assms ld by (simp add: build_mapping_def Let_def m2_def m5_def)
  have l2: "m2 k = (case kv k of Some v \<Rightarrow> Some (JStr v) | None \<Rightarrow>
        (case map_of dvars k of Some v \<Rightarrow> Some (JStr v) | None \<Rightarrow> m0 k))" for k
    by (simp add: m2_def dict_update_def map_add_def map_of_JStr split: option.splits)
  have l5: "m5 k = (case m2 k of Some x \<Rightarrow> Some x | None \<Rightarrow>
           [''project_id'' \<mapsto> JStr (proj @ ''-dynamic''),
            ''project_name'' \<mapsto> JStr (title lib proj @ '' Project (Dynamic)''),
            ''config_path'' \<mapsto> JStr outp] k)" for k
    unfolding m5_def setdefault_apply by (simp split: option.splits)
  have "m5 k =
        (case kv k of Some v \<Rightarrow> Some (JStr v) | None \<Rightarrow>
        (case map_of dvars k of Some v \<Rightarrow> Some (JStr v) | None \<Rightarrow>
        (case snd (load_deploy lib w dp) k of Some v \<Rightarrow> Some v | None \<Rightarrow>
           [''project_id'' \<mapsto> JStr (proj @ ''-dynamic''),
            ''project_name'' \<mapsto> JStr (title lib proj @ '' Project (Dynamic)''),
            ''config_path'' \<mapsto> JStr outp] k)))" for k
    unfolding l5 l2 ld snd_conv by (simp split: option.splits)
  with r show ?thesis by blast
qed

text \<open>One key from each layer: \<open>a\<close> from the deployment file, \<open>b\<close> from the defaults,
  \<open>c\<close> from \<open>--var\<close>, and the fallback \<open>project_id\<close>.\<close>

theorem mapping_precedence_witness:
  "\<exists>m. snd (build_mapping example_lib example_world (Some ''deploy.json'')
             [(''b'', ''3'')] [''c=5''] ''demo'' ''out.json'') = Inr m \<and>
       m ''a'' = Some (JStr ''1'') \<and> m ''b'' = Some (JStr ''3'') \<and>
       m ''c'' = Some (JStr ''5'') \<and> m ''project_id'' = Some (JStr ''demo-dynamic'') \<and>
       m ''other'' = None"
proof -
  have l: "example_lib = example_lib\<lparr>normpath := (\<lambda>p. p)\<rparr>"
    by (simp add: example_lib_def)
  have ld: "snd (load_deploy example_lib example_world (Some ''deploy.json'')) = [''a'' \<mapsto> JStr ''1'']"
    using load_deploy_example [of example_lib] l by simp
  from mapping_precedence [OF parse_kv_c5, of example_lib example_world "Some ''deploy.json''"
      "[(''b'', ''3'')]" "''demo''" "''out.json''"]
  obtain m where
    m: "snd (build_mapping example_lib example_world (Some ''deploy.json'')
             [(''b'', ''3'')] [''c=5''] ''demo'' ''out.json'') = Inr m"
    and k: "\<And>k. m k =
        (case [''c'' \<mapsto> ''5''] k of Some v \<Rightarrow> Some (JStr v) | None \<Rightarrow>
        (case map_of [(''b'', ''3'')] k of Some v \<Rightarrow> Some (JStr v) | None \<Rightarrow>
        (case snd (load_deploy example_lib example_world (Some ''deploy.json'')) k of
           Some v \<Rightarrow> Some v
         | None \<Rightarrow>
           [''project_id'' \<mapsto> JStr (''demo'' @ ''-dynamic''),
            ''project_name'' \<mapsto> JStr (title example_lib ''demo'' @ '' Project (Dynamic)''),
            ''config_path'' \<mapsto> JStr ''out.json''] k)))"
    by blast
  have "m ''a'' = Some (JStr ''1'')" "m ''b'' = Some (JStr ''3'')" "m ''c'' = Some (JStr ''5'')"
    "m ''project_id'' = Some (JStr ''demo-dynamic'')" "m ''other'' = None"
    by (simp_all add: k ld)
  with m show ?thesis by blast
qed

text \<open>
  C2: the code does not do what the claim and its own warning say. With a deploy path
  that does not exist the warning is printed, but a placeholder of the deployment file
  is not rendered as the empty string: it stays in the text and the render is rejected.
\<close>

theorem missing_deploy_rejected:
  \<open>main ((lib :: unit pylib)\<lparr>normpath := (\<lambda>p. p)\<rparr>)
     \<lparr>deploy_files = Map.empty, text_files = [''t.tmpl'' \<mapsto> ''{"addr":"${addr}"}'']\<rparr>
     \<lparr>arg_project = ''foo'', arg_deploy = Some ''missing.json'', arg_template = Some ''t.tmpl'',
      arg_output = None, arg_var = []\<rparr>
   = ([WarnDeployMissing ''missing.json''], Inl TemplateIncomplete)\<close>
  by code_simp simp

section \<open>The Batch Driver\<close>

subsection \<open>One protocol\<close>

lemma say_fields [simp]:
  "disk (say a msg st) = disk st" "spawned (say a msg st) = spawned st"
  "success (say a msg st) = success st" "skipped (say a msg st) = skipped st"
  "failed (say a msg st) = failed st"
  by (simp_all add: say_def)

lemma resolve_template_missing:
  assumes "\<not> path_exists root (generated_template e protocol)"
    and "\<not> path_exists root (fallback_template e protocol)"
  shows "\<not> path_exists root (resolve_template e root protocol)"
  using assms by (simp add: resolve_template_def Let_def)

lemma resolve_template_found:
  assumes "path_exists root (generated_template e protocol)
      \<or> path_exists root (fallback_template e protocol)"
  shows "path_exists root (resolve_template e root protocol)"
  using assms by (auto simp add: resolve_template_def Let_def)

lemma process_protocol_failed:
  assumes "\<not> path_exists (disk st) (resolve_template e (disk st) protocol)"
  shows "process_protocol e run a st protocol =
           Inr ((say a (MsgTemplateMissing protocol (resolve_template e (disk st) protocol)) st)
                  \<lparr>failed := failed st + 1\<rparr>)"
  using assms by (simp add: process_protocol_def Let_def)

lemma process_protocol_skipped:
  assumes "path_exists (disk st) (resolve_template e (disk st) protocol)"
    and "path_exists (disk st) (output_path_of e protocol)"
    and "\<not> b_force a"
  shows "process_protocol e run a st protocol =
           Inr ((say a (MsgOutputExists (output_path_of e protocol)) st)
                  \<lparr>skipped := skipped st + 1\<rparr>)"
  using assms by (simp add: process_protocol_def Let_def)

lemma process_protocol_one_counter:
  assumes "process_protocol e run a st protocol = Inr st'"
  shows "(success st' = success st + 1 \<and> skipped st' = skipped st \<and> failed st' = failed st) \<or>
         (success st' = success st \<and> skipped st' = skipped st + 1 \<and> failed st' = failed st) \<or>
         (success st' = success st \<and> skipped st' = skipped st \<and> failed st' = failed st + 1)"
proof -
  let ?t = "resolve_template e (disk st) protocol"
  let ?o = "output_path_of e protocol"
  consider (missing) "\<not> path_exists (disk st) ?t"
    | (present) "path_exists (disk st) ?t" "path_exists (disk st) ?o" "\<not> b_force a"
    | (build) "path_exists (disk st) ?t" "\<not> (path_exists (disk st) ?o \<and> \<not> b_force a)"
    by blast
  then show ?thesis
  proof cases
    case missing
    with assms show ?thesis by (auto simp: process_protocol_failed)
  next
    case present
    with assms show ?thesis by (auto simp: process_protocol_skipped)
  next
    case build
    with assms show ?thesis
      by (auto simp: process_protocol_def Let_def split: if_splits sum.splits prod.splits)
  qed
qed

lemma process_protocol_dry_run:
  assumes "b_dry_run a"
  shows "\<exists>st'. process_protocol e run a st protocol = Inr st' \<and>
           disk st' = disk st \<and> spawned st' = spawned st"
  using assms by (simp add: process_protocol_def Let_def)

subsection \<open>The loop\<close>

lemma process_all_counts:
  assumes "process_all e run a st ps = Inr st'"
  shows "success st' + skipped st' + failed st' = success st + skipped st + failed st + length ps"
  using assms
proof (induction ps arbitrary: st)
  case Nil
  then show ?case by simp
next
  case (Cons p ps)
  from Cons.prems obtain st1 where
    a: "process_protocol e run a st p = Inr st1" and b: "process_all e run a st1 ps = Inr st'"
    by (auto split: sum.splits)
  from Cons.IH [OF b] process_protocol_one_counter [OF a] show ?case by auto
qed

text \<open>In a dry run the loop always ends, starts no child and leaves the disk as it is.\<close>

lemma process_all_dry_run:
  assumes "b_dry_run a"
  shows "\<exists>st'. process_all e run a st ps = Inr st' \<and> disk st' = disk st \<and> spawned st' = spawned st"
proof (induction ps arbitrary: st)
  case Nil
  then show ?case by simp
next
  case (Cons p ps)
  from process_protocol_dry_run [OF assms, of e run st p] obtain st1 where
    a: "process_protocol e run a st p = Inr st1" "disk st1 = disk st" "spawned st1 = spawned st"
    by blast
  from Cons.IH [of st1] obtain st' where
    "process_all e run a st1 ps = Inr st'" "disk st' = disk st1" "spawned st' = spawned st1"
    by blast
  with a show ?case by simp
qed

text \<open>So the only thing a dry run can change on the disk is the output root, created
  before the loop.\<close>

lemma batch_main_dry_run:
  assumes "b_dry_run a" and "batch_main e run root a = Inr (code, st)"
  shows "spawned st = [] \<and> (disk st = root \<or> mkdir_parents root (OUTPUT_ROOT e) = Inr (disk st))"
proof -
  from assms(2) obtain ps where ps: "resolve_protocols e root a = Inr ps"
    by (auto simp: batch_main_def Let_def split: sum.splits)
  show ?thesis
  proof (cases "ps = []")
    case True
    with assms(2) ps show ?thesis by (auto simp: batch_main_def Let_def)
  next
    case False
    with assms(2) ps obtain root' where r: "mkdir_parents root (OUTPUT_ROOT e) = Inr root'"
      by (auto simp: batch_main_def Let_def split: sum.splits)
    let ?st0 = "\<lparr>disk = root', success = 0, skipped = 0, failed = 0, printed = [], spawned = []\<rparr>"
    from process_all_dry_run [OF assms(1), of e run ?st0 ps] obtain st1 where
      l: "process_all e run a ?st0 ps = Inr st1" "disk st1 = root'" "spawned st1 = []"
      by auto
    with assms(2) ps False r show ?thesis by (auto simp: batch_main_def Let_def)
  qed
qed

subsection \<open>Example runs\<close>

lemma example_dry_run_eval:
  "batch_main example_env run example_disk example_args =
     Inr (0, \<lparr>disk = example_disk_out, success = 1, skipped = 0, failed = 0,
              printed =
                [MsgDryRun
                  [''python3'', ''/repo/autopath/generate_config.py'',
                   ''--project'', ''foo'', ''--template'',
                   ''/repo/generated/Foo_exp/foo_dynamic.json.tmpl'',
                   ''--output'', ''/repo/autopath/pkg/invariants/configs/foo.json'',
                   ''--deploy'', ''/repo/test/Foo_exp/scripts/data/deployment.json''],
                 MsgSummary 1 0 0],
              spawned = []\<rparr>)"
  by code_simp

lemma example_no_protocols_eval:
  "batch_main example_env run example_disk_empty (example_args\<lparr>b_protocols := None\<rparr>) =
     Inr (1, \<lparr>disk = example_disk_empty, success = 0, skipped = 0, failed = 0,
              printed = [MsgNoProtocols], spawned = []\<rparr>)"
  by code_simp

lemma example_skip_eval:
  "batch_main example_env run example_disk_done (example_args\<lparr>b_dry_run := False\<rparr>) =
     Inr (0, \<lparr>disk = example_disk_done, success = 0, skipped = 1, failed = 0,
              printed =
                [MsgOutputExists
                   (Path False [''repo'', ''autopath'', ''pkg'', ''invariants'', ''configs'', ''foo.json'']),
                 MsgSummary 0 1 0],
              spawned = []\<rparr>)"
  by code_simp

lemma example_two_eval:
  "batch_main example_env run example_disk
       (example_args\<lparr>b_protocols := Some [''Foo_exp, Bar'']\<rparr>) =
     Inr (1, \<lparr>disk = example_disk_out, success = 1, skipped = 0, failed = 1,
              printed =
                [MsgDryRun
                  [''python3'', ''/repo/autopath/generate_config.py'',
                   ''--project'', ''foo'', ''--template'',
                   ''/repo/generated/Foo_exp/foo_dynamic.json.tmpl'',
                   ''--output'', ''/repo/autopath/pkg/invariants/configs/foo.json'',
                   ''--deploy'', ''/repo/test/Foo_exp/scripts/data/deployment.json''],
                 MsgTemplateMissing ''Bar'' (Path False [''repo'', ''generated'', ''Bar'', ''bar_dynamic.json.tmpl'']),
                 MsgSummary 1 0 1],
              spawned = []\<rparr>)"
  by code_simp

lemma example_two_protocols:
  "resolve_protocols example_env example_disk
       (example_args\<lparr>b_protocols := Some [''Foo_exp, Bar'']\<rparr>) = Inr [''Foo_exp'', ''Bar'']"
  by code_simp

lemma example_output_root:
  "\<not> path_exists example_disk (OUTPUT_ROOT example_env)"
  "path_exists example_disk_out (OUTPUT_ROOT example_env)"
  by code_simp+

text \<open>\<open>p / name\<close> splits the name at the separator, restarts at an absolute name and
  keeps \<open>..\<close>, which the lookup resolves on the disk.\<close>

lemma pjoin_examples:
  "pjoin (Path False [''a'']) ''b/c'' = Path False [''a'', ''b'', ''c'']"
  "pjoin (Path False [''a'']) ''./b//c/'' = Path False [''a'', ''b'', ''c'']"
  "pjoin (Path False [''a'']) ''/x'' = Path False [''x'']"
  "pjoin (Path False [''a'']) ''//x'' = Path True [''x'']"
  "pjoin (Path False [''a'']) ''///x'' = Path False [''x'']"
  "pjoin (Path False [''a'']) ''../x'' = Path False [''a'', ''..'', ''x'']"
  "path_str (Path True [''x'', ''y'']) = ''//x/y''"
  "path_str (Path False []) = ''/''"
  by code_simp+

lemma example_nested_paths:
  "generated_template example_env ''2024-01/Foo_exp''
     = Path False [''repo'', ''generated'', ''2024-01'', ''Foo_exp'', ''2024-01'', ''foo_dynamic.json.tmpl'']"
  "output_path_of example_env ''2024-01/Foo_exp''
     = Path False [''repo'', ''autopath'', ''pkg'', ''invariants'', ''configs'', ''2024-01'', ''foo.json'']"
  "path_exists example_disk_done (output_path_of example_env ''../configs/foo'')"
  by code_simp+

text \<open>A protocol named with its month: the template is found below the two directories,
  and a forced run starts the child.\<close>

lemma example_nested_eval:
  "process_protocol example_env example_run (example_args\<lparr>b_dry_run := False, b_force := True\<rparr>)
       (example_state example_disk_nested) ''2024-01/Foo_exp'' =
     Inr \<lparr>disk = example_disk_nested, success = 1, skipped = 0, failed = 0,
          printed =
            [MsgRun
              [''python3'', ''/repo/autopath/generate_config.py'',
               ''--project'', ''2024-01/foo'', ''--template'',
               ''/repo/generated/2024-01/Foo_exp/2024-01/foo_dynamic.json.tmpl'',
               ''--output'', ''/repo/autopath/pkg/invariants/configs/2024-01/foo.json'',
               ''--deploy'', ''/repo/test/2024-01/Foo_exp/scripts/data/deployment.json'']],
          spawned =
            [[''python3'', ''/repo/autopath/generate_config.py'',
              ''--project'', ''2024-01/foo'', ''--template'',
              ''/repo/generated/2024-01/Foo_exp/2024-01/foo_dynamic.json.tmpl'',
              ''--output'', ''/repo/autopath/pkg/invariants/configs/2024-01/foo.json'',
              ''--deploy'', ''/repo/test/2024-01/Foo_exp/scripts/data/deployment.json'']]\<rparr>"
  by code_simp

subsection \<open>The claims\<close>

text \<open>
  C6: the code does not keep a dry run free of effects on the disk. The output root is
  created before the loop, whether or not \<open>--dry-run\<close> is set: on a disk without it, a dry
  run over one protocol ends with exit code 0, with no child started, and with the
  directories \<open>pkg/invariants/configs\<close> created.
\<close>

theorem dry_run_creates_output_root:
  "b_dry_run example_args \<and>
   batch_main example_env run example_disk example_args =
     Inr (0, \<lparr>disk = example_disk_out, success = 1, skipped = 0, failed = 0,
              printed =
                [MsgDryRun
                  [''python3'', ''/repo/autopath/generate_config.py'',
                   ''--project'', ''foo'', ''--template'',
                   ''/repo/generated/Foo_exp/foo_dynamic.json.tmpl'',
                   ''--output'', ''/repo/autopath/pkg/invariants/configs/foo.json'',
                   ''--deploy'', ''/repo/test/Foo_exp/scripts/data/deployment.json''],
                 MsgSummary 1 0 0],
              spawned = []\<rparr>) \<and>
   example_disk_out \<noteq> example_disk \<and>
   \<not> path_exists example_disk (OUTPUT_ROOT example_env) \<and>
   path_exists example_disk_out (OUTPUT_ROOT example_env)"
  using example_dry_run_eval [of run] example_output_root
  by (simp add: example_args_def example_disk_def example_disk_out_def)

text \<open>
  C7: for a protocol, whatever its name, whose generated template and fallback template
  are both absent, the step counts a failure, starts no child and leaves the disk as it
  is (so no output file appears); for a protocol with a template whose output path
  exists, without \<open>--force\<close>, the step counts a skip, starts no child and leaves the disk,
  and with it the output file, as it is.
\<close>

theorem template_missing_or_output_exists:
  "(\<not> path_exists (disk st) (generated_template e protocol) \<and>
    \<not> path_exists (disk st) (fallback_template e protocol)
    \<longrightarrow> (\<exists>st'. process_protocol e run a st protocol = Inr st' \<and>
           failed st' = failed st + 1 \<and> success st' = success st \<and> skipped st' = skipped st \<and>
           spawned st' = spawned st \<and> disk st' = disk st)) \<and>
   ((path_exists (disk st) (generated_template e protocol) \<or>
     path_exists (disk st) (fallback_template e protocol)) \<and>
    path_exists (disk st) (output_path_of e protocol) \<and> \<not> b_force a
    \<longrightarrow> (\<exists>st'. process_protocol e run a st protocol = Inr st' \<and>
           skipped st' = skipped st + 1 \<and> success st' = success st \<and> failed st' = failed st \<and>
           spawned st' = spawned st \<and> disk st' = disk st \<and>
           lookup (disk st') (output_path_of e protocol)
             = lookup (disk st) (output_path_of e protocol)))"
proof (intro conjI impI)
  assume "\<not> path_exists (disk st) (generated_template e protocol) \<and>
    \<not> path_exists (disk st) (fallback_template e protocol)"
  then have "\<not> path_exists (disk st) (resolve_template e (disk st) protocol)"
    by (simp add: resolve_template_missing)
  then show "\<exists>st'. process_protocol e run a st protocol = Inr st' \<and>
           failed st' = failed st + 1 \<and> success st' = success st \<and> skipped st' = skipped st \<and>
           spawned st' = spawned st \<and> disk st' = disk st"
    by (simp add: process_protocol_failed)
next
  assume h: "(path_exists (disk st) (generated_template e protocol) \<or>
     path_exists (disk st) (fallback_template e protocol)) \<and>
    path_exists (disk st) (output_path_of e protocol) \<and> \<not> b_force a"
  then have "path_exists (disk st) (resolve_template e (disk st) protocol)"
    using resolve_template_found by blast
  with h show "\<exists>st'. process_protocol e run a st protocol = Inr st' \<and>
           skipped st' = skipped st + 1 \<and> success st' = success st \<and> failed st' = failed st \<and>
           spawned st' = spawned st \<and> disk st' = disk st \<and>
           lookup (disk st') (output_path_of e protocol)
             = lookup (disk st) (output_path_of e protocol)"
    by (simp add: process_protocol_skipped)
qed

text \<open>\<open>Bar\<close> has no template on \<open>example_disk\<close>; the config of \<open>Foo_exp\<close> exists on
  \<open>example_disk_done\<close>, and that of \<open>2024-01/Foo_exp\<close> on \<open>example_disk_nested\<close>.\<close>

theorem template_missing_or_output_exists_witness:
  "(\<exists>st'. process_protocol example_env example_run example_args (example_state example_disk) ''Bar''
             = Inr st' \<and>
          failed st' = 1 \<and> success st' = 0 \<and> skipped st' = 0 \<and> spawned st' = [] \<and>
          disk st' = example_disk) \<and>
   (\<exists>st'. process_protocol example_env example_run example_args (example_state example_disk_done) ''Foo_exp''
             = Inr st' \<and>
          skipped st' = 1 \<and> success st' = 0 \<and> failed st' = 0 \<and> spawned st' = [] \<and>
          disk st' = example_disk_done \<and>
          lookup (disk st') (Path False [''repo'', ''autopath'', ''pkg'', ''invariants'', ''configs'', ''foo.json''])
            = Some (File ''{}'')) \<and>
   (\<exists>st'. process_protocol example_env example_run example_args (example_state example_disk_nested)
             ''2024-01/Foo_exp'' = Inr st' \<and>
          skipped st' = 1 \<and> success st' = 0 \<and> failed st' = 0 \<and> spawned st' = [] \<and>
          disk st' = example_disk_nested)"
proof -
  have bar: "\<not> path_exists (disk (example_state example_disk))
        (generated_template example_env ''Bar'')"
    "\<not> path_exists (disk (example_state example_disk))
        (fallback_template example_env ''Bar'')"
    by code_simp+
  have foo: "path_exists (disk (example_state example_disk_done))
        (generated_template example_env ''Foo_exp'')"
    "path_exists (disk (example_state example_disk_done))
        (output_path_of example_env ''Foo_exp'')"
    "\<not> b_force example_args"
    by code_simp+
  have nested: "path_exists (disk (example_state example_disk_nested))
        (generated_template example_env ''2024-01/Foo_exp'')"
    "path_exists (disk (example_state example_disk_nested))
        (output_path_of example_env ''2024-01/Foo_exp'')"
    by code_simp+
  have out: "output_path_of example_env ''Foo_exp''
      = (Path False [''repo'', ''autopath'', ''pkg'', ''invariants'', ''configs'', ''foo.json''])"
    by code_simp
  have content: "lookup example_disk_done (Path False [''repo'', ''autopath'', ''pkg'', ''invariants'', ''configs'', ''foo.json''])
      = Some (File ''{}'')"
    by code_simp
  from bar template_missing_or_output_exists
    [of "example_state example_disk" example_env "''Bar''" example_run example_args]
  have a: "\<exists>st'. process_protocol example_env example_run example_args (example_state example_disk) ''Bar''
             = Inr st' \<and>
          failed st' = 1 \<and> success st' = 0 \<and> skipped st' = 0 \<and> spawned st' = [] \<and>
          disk st' = example_disk"
    by (simp add: example_state_def)
  from foo template_missing_or_output_exists
    [of "example_state example_disk_done" example_env "''Foo_exp''" example_run example_args]
  have b: "\<exists>st'. process_protocol example_env example_run example_args (example_state example_disk_done) ''Foo_exp''
             = Inr st' \<and>
          skipped st' = 1 \<and> success st' = 0 \<and> failed st' = 0 \<and> spawned st' = [] \<and>
          disk st' = example_disk_done \<and>
          lookup (disk st') (output_path_of example_env ''Foo_exp'')
            = lookup example_disk_done (output_path_of example_env ''Foo_exp'')"
    by (simp add: example_state_def)
  from nested foo(3) template_missing_or_output_exists
    [of "example_state example_disk_nested" example_env "''2024-01/Foo_exp''" example_run example_args]
  have c: "\<exists>st'. process_protocol example_env example_run example_args (example_state example_disk_nested)
             ''2024-01/Foo_exp'' = Inr st' \<and>
          skipped st' = 1 \<and> success st' = 0 \<and> failed st' = 0 \<and> spawned st' = [] \<and>
          disk st' = example_disk_nested"
    by (auto simp add: example_state_def)
  from a b c show ?thesis unfolding out content by blast
qed

text \<open>
  C8: a run that ends with an exit code ends with 0 or 1; the code is 1 when no protocol
  was found, and otherwise it is 0 exactly when no protocol was counted as failed. The
  number of skipped protocols plays no part.
\<close>

theorem exit_code:
  assumes "batch_main e run root a = Inr (code, st)"
  shows "\<exists>protocol_list. resolve_protocols e root a = Inr protocol_list \<and>
           (code = 0 \<or> code = 1) \<and>
           (protocol_list = [] \<longrightarrow> code = 1) \<and>
           (protocol_list \<noteq> [] \<longrightarrow> (code = 0 \<longleftrightarrow> failed st = 0)) \<and>
           (code = 0 \<longleftrightarrow> protocol_list \<noteq> [] \<and> failed st = 0)"
proof -
  from assms obtain ps where ps: "resolve_protocols e root a = Inr ps"
    by (auto simp: batch_main_def Let_def split: sum.splits)
  show ?thesis
  proof (cases "ps = []")
    case True
    with assms ps show ?thesis by (auto simp: batch_main_def Let_def)
  next
    case False
    with assms ps have "code = (if failed st = 0 then 0 else 1)"
      by (auto simp: batch_main_def Let_def split: sum.splits)
    with ps False show ?thesis by auto
  qed
qed

text \<open>A run with one success ends with 0, a run with one skip ends with 0, a run with a
  failure ends with 1, and a run that finds no protocol ends with 1.\<close>

theorem exit_code_witness:
  "(\<exists>st. batch_main example_env example_run example_disk example_args = Inr (0, st) \<and>
         failed st = 0 \<and> success st = 1) \<and>
   (\<exists>st. batch_main example_env example_run example_disk_done
            (example_args\<lparr>b_dry_run := False\<rparr>) = Inr (0, st) \<and>
         failed st = 0 \<and> skipped st = 1) \<and>
   (\<exists>st. batch_main example_env example_run example_disk
            (example_args\<lparr>b_protocols := Some [''Foo_exp, Bar'']\<rparr>) = Inr (1, st) \<and>
         failed st \<noteq> 0) \<and>
   (\<exists>st. batch_main example_env example_run example_disk_empty
            (example_args\<lparr>b_protocols := None\<rparr>) = Inr (1, st) \<and>
         resolve_protocols example_env example_disk_empty (example_args\<lparr>b_protocols := None\<rparr>) = Inr [])"
proof -
  note a = exit_code [OF example_dry_run_eval [of example_run]]
  note b = exit_code [OF example_skip_eval [of example_run]]
  note c = exit_code [OF example_two_eval [of example_run]]
  note d = exit_code [OF example_no_protocols_eval [of example_run]]
  have 1: "\<exists>st. batch_main example_env example_run example_disk example_args = Inr (0, st) \<and>
         failed st = 0 \<and> success st = 1"
    using a example_dry_run_eval [of example_run] by auto
  have 2: "\<exists>st. batch_main example_env example_run example_disk_done
            (example_args\<lparr>b_dry_run := False\<rparr>) = Inr (0, st) \<and>
         failed st = 0 \<and> skipped st = 1"
    using b example_skip_eval [of example_run] by auto
  have 3: "\<exists>st. batch_main example_env example_run example_disk
            (example_args\<lparr>b_protocols := Some [''Foo_exp, Bar'']\<rparr>) = Inr (1, st) \<and>
         failed st \<noteq> 0"
    using c example_two_eval [of example_run] by auto
  have 4: "\<exists>st. batch_main example_env example_run example_disk_empty
            (example_args\<lparr>b_protocols := None\<rparr>) = Inr (1, st) \<and>
         resolve_protocols example_env example_disk_empty (example_args\<lparr>b_protocols := None\<rparr>) = Inr []"
    using d example_no_protocols_eval [of example_run] by auto
  from 1 2 3 4 show ?thesis by blast
qed

text \<open>
  C10: each step of the loop adds one to exactly one of the three counters, and a run that
  reaches the loop and ends with an exit code prints, as its last line, a summary whose
  three counts add up to the number of protocols in the list.
\<close>

theorem counters_partition:
  "(process_protocol e run a st0 protocol = Inr st1 \<longrightarrow>
      (success st1 = success st0 + 1 \<and> skipped st1 = skipped st0 \<and> failed st1 = failed st0) \<or>
      (success st1 = success st0 \<and> skipped st1 = skipped st0 + 1 \<and> failed st1 = failed st0) \<or>
      (success st1 = success st0 \<and> skipped st1 = skipped st0 \<and> failed st1 = failed st0 + 1)) \<and>
   (batch_main e run root a = Inr (code, st) \<and> resolve_protocols e root a = Inr protocol_list \<and>
    protocol_list \<noteq> [] \<longrightarrow>
      success st + skipped st + failed st = length protocol_list \<and>
      printed st \<noteq> [] \<and>
      last (printed st) = MsgSummary (success st) (skipped st) (failed st))"
proof (rule conjI; rule impI)
  assume "process_protocol e run a st0 protocol = Inr st1"
  then show "(success st1 = success st0 + 1 \<and> skipped st1 = skipped st0 \<and> failed st1 = failed st0) \<or>
      (success st1 = success st0 \<and> skipped st1 = skipped st0 + 1 \<and> failed st1 = failed st0) \<or>
      (success st1 = success st0 \<and> skipped st1 = skipped st0 \<and> failed st1 = failed st0 + 1)"
    by (rule process_protocol_one_counter)
next
  assume h: "batch_main e run root a = Inr (code, st) \<and> resolve_protocols e root a = Inr protocol_list \<and>
    protocol_list \<noteq> []"
  then obtain root' st2 where
    l: "process_all e run a \<lparr>disk = root', success = 0, skipped = 0, failed = 0, printed = [], spawned = []\<rparr>
          protocol_list = Inr st2"
    and s: "st = st2\<lparr>printed := printed st2 @ [MsgSummary (success st2) (skipped st2) (failed st2)]\<rparr>"
    by (auto simp: batch_main_def Let_def split: sum.splits)
  from process_all_counts [OF l] have "success st2 + skipped st2 + failed st2 = length protocol_list"
    by simp
  with s show "success st + skipped st + failed st = length protocol_list \<and>
      printed st \<noteq> [] \<and>
      last (printed st) = MsgSummary (success st) (skipped st) (failed st)"
    by simp
qed

text \<open>Two protocols, one counted as success and one as failure.\<close>

theorem counters_partition_witness:
  "\<exists>st. batch_main example_env example_run example_disk
           (example_args\<lparr>b_protocols := Some [''Foo_exp, Bar'']\<rparr>) = Inr (1, st) \<and>
        success st + skipped st + failed st = 2 \<and>
        last (printed st) = MsgSummary 1 0 1"
proof -
  let ?a = "example_args\<lparr>b_protocols := Some [''Foo_exp, Bar'']\<rparr>"
  let ?st = "\<lparr>disk = example_disk_out, success = 1, skipped = 0, failed = 1,
              printed =
                [MsgDryRun
                  [''python3'', ''/repo/autopath/generate_config.py'',
                   ''--project'', ''foo'', ''--template'',
                   ''/repo/generated/Foo_exp/foo_dynamic.json.tmpl'',
                   ''--output'', ''/repo/autopath/pkg/invariants/configs/foo.json'',
                   ''--deploy'', ''/repo/test/Foo_exp/scripts/data/deployment.json''],
                 MsgTemplateMissing ''Bar'' (Path False [''repo'', ''generated'', ''Bar'', ''bar_dynamic.json.tmpl'']),
                 MsgSummary 1 0 1],
              spawned = []\<rparr>"
  have ev: "batch_main example_env example_run example_disk ?a = Inr (1, ?st)"
    by (rule example_two_eval)
  from counters_partition [of example_env example_run ?a _ _ _ example_disk 1 ?st "[''Foo_exp'', ''Bar'']"]
    ev example_two_protocols
  have "success ?st + skipped ?st + failed ?st = length [''Foo_exp'', ''Bar''] \<and>
      printed ?st \<noteq> [] \<and> last (printed ?st) = MsgSummary (success ?st) (skipped ?st) (failed ?st)"
    by blast
  then have "success ?st + skipped ?st + failed ?st = 2 \<and> last (printed ?st) = MsgSummary 1 0 1"
    by simp
  with ev show ?thesis by blast
qed

end
